theory Spec2Isabelle
  imports Main "HOL-Library.AList"
begin

section \<open>The shared schema (shared/schema.ts)\<close>

text \<open>
  Timestamps are JavaScript \<^verbatim>\<open>Date\<close> values, modelled by their
  \<^verbatim>\<open>getTime()\<close>: an \<open>int\<close> of milliseconds since the epoch. A nullable column is
  an \<open>option\<close>; \<open>None\<close> stands for both \<^verbatim>\<open>null\<close> and \<^verbatim>\<open>undefined\<close>.
  \<^verbatim>\<open>InsertSlot\<close> is \<^verbatim>\<open>Slot\<close> without \<^verbatim>\<open>id\<close> and \<^verbatim>\<open>createdAt\<close>, so \<open>slot\<close> extends
  \<open>insert_slot\<close>; the same for users and ping usages.
\<close>

record insert_user =
  discordId :: string
  user_username :: string
  avatar :: "string option"

record user = insert_user +
  user_id :: string

record insert_slot =
  userId :: string
  discordUserId :: string
  username :: string
  shopType :: string
  channelId :: string
  originalChannelName :: string
  roleId :: "string option"
  expiresAt :: "int option"
  isActive :: "bool option"

record slot = insert_slot +
  slot_id :: string
  createdAt :: "int option"

record insert_ping_usage =
  slotId :: string
  ping_discordUserId :: string
  messageId :: "string option"
  ping_channelId :: "string option"

record ping_usage = insert_ping_usage +
  ping_id :: string
  usedAt :: "int option"

record shop_config =
  shop_name :: string
  duration :: "int option"
  pingCooldown :: int
  pingsPerCooldown :: nat

text \<open>
  The tier table \<^verbatim>\<open>shopTypes\<close>, looked up by its own five keys; any other key reads
  \<^verbatim>\<open>undefined\<close>. (The shop type of the slash command is one of the five choices that
  the command registers.)
\<close>

definition shopTypes :: "string \<Rightarrow> shop_config option" where
  "shopTypes k =
     (if k = ''level1'' then Some \<lparr>shop_name = ''Level 1'',
        duration = Some (7 * 24 * 60 * 60 * 1000),
        pingCooldown = 72 * 60 * 60 * 1000, pingsPerCooldown = 1\<rparr>
      else if k = ''level2'' then Some \<lparr>shop_name = ''Level 2'',
        duration = Some (14 * 24 * 60 * 60 * 1000),
        pingCooldown = 48 * 60 * 60 * 1000, pingsPerCooldown = 1\<rparr>
      else if k = ''level3'' then Some \<lparr>shop_name = ''Level 3'',
        duration = Some (30 * 24 * 60 * 60 * 1000),
        pingCooldown = 24 * 60 * 60 * 1000, pingsPerCooldown = 1\<rparr>
      else if k = ''level4'' then Some \<lparr>shop_name = ''Level 4'',
        duration = None,
        pingCooldown = 24 * 60 * 60 * 1000, pingsPerCooldown = 1\<rparr>
      else if k = ''partnered'' then Some \<lparr>shop_name = ''Partnered'',
        duration = None,
        pingCooldown = 24 * 60 * 60 * 1000, pingsPerCooldown = 2\<rparr>
      else None)"

subsection \<open>JavaScript truthiness of the values the code tests\<close>

text \<open>
  \<^verbatim>\<open>slot.isActive\<close> is \<^verbatim>\<open>boolean | null\<close>: truthy only when it is \<^verbatim>\<open>true\<close>.
  A \<^verbatim>\<open>Date\<close> object is always truthy, and a string unless it is empty.
\<close>

definition truthy_bool :: "bool option \<Rightarrow> bool" where
  "truthy_bool b = (b = Some True)"

definition truthy_date :: "int option \<Rightarrow> bool" where
  "truthy_date d = (d \<noteq> None)"

definition truthy_string :: "string option \<Rightarrow> bool" where
  "truthy_string s = (s \<noteq> None \<and> s \<noteq> Some [])"

section \<open>The in-memory store (server/storage.ts, class MemStorage)\<close>

text \<open>
  A JavaScript \<^verbatim>\<open>Map\<close> keeps its entries in insertion order; \<^verbatim>\<open>set\<close> on a key that
  is present replaces the value in place and otherwise appends: this is
  \<open>AList.update\<close> on an association list. \<^verbatim>\<open>values()\<close> lists the values in that
  order.
\<close>

type_synonym 'v js_map = "(string \<times> 'v) list"

definition map_values :: "'v js_map \<Rightarrow> 'v list" where
  "map_values m = map snd m"

definition map_get :: "'v js_map \<Rightarrow> string \<Rightarrow> 'v option" where
  "map_get m k = map_of m k"

definition map_set :: "string \<Rightarrow> 'v \<Rightarrow> 'v js_map \<Rightarrow> 'v js_map" where
  "map_set k v m = AList.update k v m"

definition map_has :: "'v js_map \<Rightarrow> string \<Rightarrow> bool" where
  "map_has m k = (k \<in> set (map fst m))"

record mem_storage =
  users :: "user js_map"
  slots :: "slot js_map"
  pingUsage :: "ping_usage js_map"

definition new_storage :: mem_storage where
  "new_storage = \<lparr>users = [], slots = [], pingUsage = []\<rparr>"

text \<open>
  \<^verbatim>\<open>randomUUID()\<close> and \<^verbatim>\<open>new Date()\<close> are inputs of the model: the fresh key \<open>new_id\<close>
  and the clock reading \<open>now\<close>.
\<close>

definition getUserByDiscordId :: "mem_storage \<Rightarrow> string \<Rightarrow> user option" where
  "getUserByDiscordId st d = find (\<lambda>u. discordId u = d) (map_values (users st))"

definition createUser :: "insert_user \<Rightarrow> string \<Rightarrow> mem_storage \<Rightarrow> user \<times> mem_storage" where
  "createUser insertUser new_id st =
     (let u = insert_user.extend insertUser (user.fields new_id)
      in (u, st\<lparr>users := map_set new_id u (users st)\<rparr>))"

definition getSlot :: "mem_storage \<Rightarrow> string \<Rightarrow> slot option" where
  "getSlot st k = map_get (slots st) k"

definition getSlotByUserId :: "mem_storage \<Rightarrow> string \<Rightarrow> slot option" where
  "getSlotByUserId st uid =
     find (\<lambda>s. userId s = uid \<and> truthy_bool (isActive s)) (map_values (slots st))"

definition getSlotByDiscordUserId :: "mem_storage \<Rightarrow> string \<Rightarrow> slot option" where
  "getSlotByDiscordUserId st uid =
     find (\<lambda>s. discordUserId s = uid \<and> truthy_bool (isActive s)) (map_values (slots st))"

definition getAllActiveSlots :: "mem_storage \<Rightarrow> slot list" where
  "getAllActiveSlots st = filter (\<lambda>s. truthy_bool (isActive s)) (map_values (slots st))"

definition getExpiredSlots :: "mem_storage \<Rightarrow> int \<Rightarrow> slot list" where
  "getExpiredSlots st now =
     filter (\<lambda>s. truthy_bool (isActive s) \<and> truthy_date (expiresAt s)
                 \<and> (case expiresAt s of None \<Rightarrow> False | Some e \<Rightarrow> e < now))
       (map_values (slots st))"

definition createSlot :: "insert_slot \<Rightarrow> string \<Rightarrow> int \<Rightarrow> mem_storage \<Rightarrow> slot \<times> mem_storage" where
  "createSlot insertSlot new_id now st =
     (let s = insert_slot.extend insertSlot (slot.fields new_id (Some now))
      in (s, st\<lparr>slots := map_set new_id s (slots st)\<rparr>))"

text \<open>
  \<^verbatim>\<open>updateSlot(id, updates)\<close> stores \<^verbatim>\<open>{ ...slot, ...updates }\<close>; the partial object
  \<open>updates\<close> is the function that overrides the fields it holds.
\<close>

definition updateSlot ::
  "string \<Rightarrow> (slot \<Rightarrow> slot) \<Rightarrow> mem_storage \<Rightarrow> slot option \<times> mem_storage" where
  "updateSlot k updates st =
     (case map_get (slots st) k of
        None \<Rightarrow> (None, st)
      | Some s \<Rightarrow> (Some (updates s), st\<lparr>slots := map_set k (updates s) (slots st)\<rparr>))"

definition deleteSlot :: "string \<Rightarrow> mem_storage \<Rightarrow> bool \<times> mem_storage" where
  "deleteSlot k st = (map_has (slots st) k, st\<lparr>slots := AList.delete k (slots st)\<rparr>)"

definition getPingUsage :: "mem_storage \<Rightarrow> string \<Rightarrow> int \<Rightarrow> ping_usage list" where
  "getPingUsage st sid since =
     filter (\<lambda>u. slotId u = sid \<and> truthy_date (usedAt u)
                 \<and> (case usedAt u of None \<Rightarrow> False | Some t \<Rightarrow> since \<le> t))
       (map_values (pingUsage st))"

definition createPingUsage ::
  "insert_ping_usage \<Rightarrow> string \<Rightarrow> int \<Rightarrow> mem_storage \<Rightarrow> ping_usage \<times> mem_storage" where
  "createPingUsage insertUsage new_id now st =
     (let u = insert_ping_usage.extend insertUsage (ping_usage.fields new_id (Some now))
      in (u, st\<lparr>pingUsage := map_set new_id u (pingUsage st)\<rparr>))"

record slot_stats =
  totalSlots :: nat
  activeSlots :: nat
  expiringSoon :: nat
  todayPings :: nat

text \<open>
  \<^verbatim>\<open>new Date(now.getFullYear(), now.getMonth(), now.getDate())\<close> is midnight of the
  current day on the local clock. The local clock is modelled as UTC shifted by a
  fixed offset \<open>tz\<close> in milliseconds (no change of offset inside the day).
\<close>

definition day_ms :: int where
  "day_ms = 24 * 60 * 60 * 1000"

definition local_midnight :: "int \<Rightarrow> int \<Rightarrow> int" where
  "local_midnight tz now = now - (now + tz) mod day_ms"

definition getSlotStats :: "int \<Rightarrow> int \<Rightarrow> mem_storage \<Rightarrow> slot_stats" where
  "getSlotStats tz now st =
     (let active = getAllActiveSlots st;
          tomorrow = now + 24 * 60 * 60 * 1000;
          today = local_midnight tz now;
          soon = length (filter (\<lambda>s. truthy_date (expiresAt s)
                    \<and> (case expiresAt s of None \<Rightarrow> False | Some e \<Rightarrow> e \<le> tomorrow)) active);
          pings = length (filter (\<lambda>u. truthy_date (usedAt u)
                    \<and> (case usedAt u of None \<Rightarrow> False | Some t \<Rightarrow> today \<le> t))
                    (map_values (pingUsage st)))
      in \<lparr>totalSlots = length (slots st), activeSlots = length active,
          expiringSoon = soon, todayPings = pings\<rparr>)"

section \<open>The bot (server/discord-bot.ts, class DiscordBot)\<close>

subsection \<open>The Discord API, the console and the handlers' control flow\<close>

text \<open>
  Every \<^verbatim>\<open>await\<close> on the Discord API either rejects (the surrounding \<^verbatim>\<open>try\<close>
  catches it) or resolves to nothing (\<^verbatim>\<open>null\<close>), to an object, or to a text channel.
  What a call does is decided by a function \<open>discord_api\<close> of the history of the run and the
  call, so that a statement for every such function is a statement for every behaviour of
  Discord. The bot's state is the store together with the trace of the calls it made,
  each with its outcome, and of the lines it wrote to the console. A handler runs from
  its call to its return with no other handler in between.
\<close>

datatype ext_outcome = Throws | Nullish | Object | TextChannel

datatype reply =
    ServerOnly | AlreadyHasSlot | RoleNotConfigured | RoleNotFound | SlotCreated
  | FailedToCreate | NoActiveSlot | SlotRemoved | FailedToRemove

datatype ext_call =
    DeferReply
  | EditReply reply
  | GuildsFetch string
  | RolesFetch string
  | MembersFetch string
  | RolesAdd string string
  | RolesRemove string string
  | ChannelsFetch string
  | OverwritesCreate string string
  | OverwritesDelete string string
  | SetName string string
  | MessageDelete string
  | AuthorSend string
  | ChannelSend string

datatype event = Ext ext_call ext_outcome | ConsoleError string | ConsoleLog string

type_synonym discord_api = "event list \<Rightarrow> ext_call \<Rightarrow> ext_outcome"

record bot =
  storage :: mem_storage
  trace :: "event list"

datatype 'a res = Threw | Ret 'a

type_synonym 'a io = "bot \<Rightarrow> 'a res \<times> bot"

definition io_ret :: "'a \<Rightarrow> 'a io" where
  "io_ret x = (\<lambda>b. (Ret x, b))"

definition io_throw :: "'a io" where
  "io_throw = (\<lambda>b. (Threw, b))"

definition io_bind :: "'a io \<Rightarrow> ('a \<Rightarrow> 'b io) \<Rightarrow> 'b io" where
  "io_bind m f = (\<lambda>b. case m b of (Threw, b') \<Rightarrow> (Threw, b') | (Ret x, b') \<Rightarrow> f x b')"

definition try_catch :: "'a io \<Rightarrow> 'a io \<Rightarrow> 'a io" where
  "try_catch m h = (\<lambda>b. case m b of (Threw, b') \<Rightarrow> h b' | (Ret x, b') \<Rightarrow> (Ret x, b'))"

definition ext :: "discord_api \<Rightarrow> ext_call \<Rightarrow> ext_outcome io" where
  "ext orc c = (\<lambda>b.
     let out = orc (trace b) c;
         b' = b\<lparr>trace := trace b @ [Ext c out]\<rparr>
     in if out = Throws then (Threw, b') else (Ret out, b'))"

definition await_ext :: "discord_api \<Rightarrow> ext_call \<Rightarrow> unit io" where
  "await_ext orc c = io_bind (ext orc c) (\<lambda>_. io_ret ())"

definition console_error :: "string \<Rightarrow> unit io" where
  "console_error s = (\<lambda>b. (Ret (), b\<lparr>trace := trace b @ [ConsoleError s]\<rparr>))"

definition console_log :: "string \<Rightarrow> unit io" where
  "console_log s = (\<lambda>b. (Ret (), b\<lparr>trace := trace b @ [ConsoleLog s]\<rparr>))"

definition io_read :: "(mem_storage \<Rightarrow> 'a) \<Rightarrow> 'a io" where
  "io_read f = (\<lambda>b. (Ret (f (storage b)), b))"

definition io_storage :: "(mem_storage \<Rightarrow> 'a \<times> mem_storage) \<Rightarrow> 'a io" where
  "io_storage f = (\<lambda>b. case f (storage b) of (x, st') \<Rightarrow> (Ret x, b\<lparr>storage := st'\<rparr>))"

text \<open>A promise that is started and not awaited: its rejection reaches no \<^verbatim>\<open>catch\<close>.\<close>

definition not_awaited :: "'a io \<Rightarrow> unit io" where
  "not_awaited m = (\<lambda>b. (Ret (), snd (m b)))"

definition falsy :: "ext_outcome \<Rightarrow> bool" where
  "falsy out = (out = Nullish)"

text \<open>
  Calling a method of an object that a fetch resolved: on \<^verbatim>\<open>null\<close> the property
  access throws a \<^verbatim>\<open>TypeError\<close> before any call is made.
\<close>

definition deref :: "ext_outcome \<Rightarrow> 'a io \<Rightarrow> 'a io" where
  "deref obj m = (if falsy obj then io_throw else m)"

text \<open>The environment variables the bot reads.\<close>

record config =
  SLOT_ROLE_ID :: "string option"
  GUILD_ID :: "string option"

definition or_empty :: "string option \<Rightarrow> string" where
  "or_empty s = (case s of None \<Rightarrow> [] | Some x \<Rightarrow> x)"

subsection \<open>revokeSlotPermissions\<close>

definition revokeSlotPermissions :: "discord_api \<Rightarrow> string \<Rightarrow> slot \<Rightarrow> unit io" where
  "revokeSlotPermissions orc guildId slot =
     try_catch
       (io_bind (ext orc (GuildsFetch guildId)) (\<lambda>guild.
        io_bind
          (if truthy_string (roleId slot) then
             try_catch
               (io_bind (deref guild (ext orc (RolesFetch (or_empty (roleId slot))))) (\<lambda>role.
                  if \<not> falsy role then
                    io_bind (ext orc (MembersFetch (discordUserId slot))) (\<lambda>member.
                      deref member
                        (await_ext orc (RolesRemove (discordUserId slot) (or_empty (roleId slot)))))
                  else io_ret ()))
               (console_error ''Error removing role from user:'')
           else io_ret ()) (\<lambda>_.
        try_catch
          (io_bind (deref guild (ext orc (ChannelsFetch (channelId slot)))) (\<lambda>channel.
             if \<not> falsy channel \<and> channel = TextChannel then
               io_bind (ext orc (OverwritesDelete (channelId slot) (discordUserId slot))) (\<lambda>_.
                 await_ext orc (SetName (channelId slot) (originalChannelName slot)))
             else io_ret ()))
          (console_error ''Error removing channel permissions or restoring channel name:''))))
       (console_error ''Error revoking slot permissions:'')"

text \<open>The update \<^verbatim>\<open>{ isActive: false }\<close>.\<close>

definition deactivate :: "slot \<Rightarrow> slot" where
  "deactivate s = s\<lparr>isActive := Some False\<rparr>"

subsection \<open>The slash commands\<close>

record discord_user =
  du_id :: string
  du_username :: string
  du_avatar :: string

record channel_option =
  ch_id :: string
  ch_name :: string

record interaction =
  int_guild :: "string option"
  opt_user :: discord_user
  opt_shoptype :: string
  opt_channel :: channel_option

text \<open>\<^verbatim>\<open>toLowerCase\<close>, on the ASCII letters; every other byte is left as it is.\<close>

definition toLowerCase :: "string \<Rightarrow> string" where
  "toLowerCase = map (\<lambda>c. let n = (of_char c :: nat)
                          in if 65 \<le> n \<and> n \<le> 90 then char_of (n + 32) else c)"

definition newChannelName :: "string \<Rightarrow> string" where
  "newChannelName uname =
     [CHR 0xF0, CHR 0x9F, CHR 0x9B, CHR 0x92, CHR 0xE2, CHR 0x94, CHR 0x82]
       @ toLowerCase uname @ ''-slot''"

text \<open>Lines 148 to 156: the user's record in the store, created when it is missing.\<close>

definition getOrCreateUser :: "discord_user \<Rightarrow> string \<Rightarrow> user io" where
  "getOrCreateUser user user_uuid =
     io_bind (io_read (\<lambda>st. getUserByDiscordId st (du_id user))) (\<lambda>found.
       case found of
         Some u \<Rightarrow> io_ret u
       | None \<Rightarrow> io_storage (createUser
           \<lparr>discordId = du_id user, user_username = du_username user,
            avatar = Some (du_avatar user)\<rparr> user_uuid))"

text \<open>
  Line 189: \<^verbatim>\<open>shopConfig.duration ? new Date(Date.now() + shopConfig.duration) : null\<close>.
  A duration is falsy when it is \<^verbatim>\<open>null\<close> or zero.
\<close>

definition calcExpiresAt :: "shop_config \<Rightarrow> int \<Rightarrow> int option" where
  "calcExpiresAt shopConfig now =
     (case duration shopConfig of
        None \<Rightarrow> None
      | Some d \<Rightarrow> if d = 0 then None else Some (now + d))"

text \<open>
  Lines 187 to 213, after the role and the channel are set up. Reading
  \<^verbatim>\<open>shopConfig.duration\<close> of a shop type that is not in the table throws.
\<close>

definition storeNewSlot ::
  "discord_api \<Rightarrow> interaction \<Rightarrow> user \<Rightarrow> string \<Rightarrow> int \<Rightarrow> int \<Rightarrow> string \<Rightarrow> unit io" where
  "storeNewSlot orc i storageUser slotRoleId now created slot_uuid =
     (case shopTypes (opt_shoptype i) of
        None \<Rightarrow> io_throw
      | Some shopConfig \<Rightarrow>
          io_bind (io_storage (createSlot
             \<lparr>userId = user_id storageUser, discordUserId = du_id (opt_user i),
              username = du_username (opt_user i), shopType = opt_shoptype i,
              channelId = ch_id (opt_channel i),
              originalChannelName = ch_name (opt_channel i),
              roleId = Some slotRoleId, expiresAt = calcExpiresAt shopConfig now,
              isActive = Some True\<rparr> slot_uuid created)) (\<lambda>_.
          await_ext orc (EditReply SlotCreated)))"

text \<open>Lines 158 to 185: the shared role, the channel permissions and the new name.\<close>

definition grantSlotPermissions ::
  "discord_api \<Rightarrow> config \<Rightarrow> interaction \<Rightarrow> (string \<Rightarrow> unit io) \<Rightarrow> unit io" where
  "grantSlotPermissions orc env i continue =
     (if \<not> truthy_string (SLOT_ROLE_ID env) then await_ext orc (EditReply RoleNotConfigured)
      else
        io_bind (ext orc (RolesFetch (or_empty (SLOT_ROLE_ID env)))) (\<lambda>slotRole.
        if falsy slotRole then await_ext orc (EditReply RoleNotFound)
        else
          io_bind (ext orc (MembersFetch (du_id (opt_user i)))) (\<lambda>member.
          io_bind (deref member
                     (ext orc (RolesAdd (du_id (opt_user i)) (or_empty (SLOT_ROLE_ID env))))) (\<lambda>_.
          io_bind (ext orc (OverwritesCreate (ch_id (opt_channel i)) (du_id (opt_user i)))) (\<lambda>_.
          io_bind (ext orc (SetName (ch_id (opt_channel i))
                     (newChannelName (du_username (opt_user i))))) (\<lambda>_.
          continue (or_empty (SLOT_ROLE_ID env))))))))"

definition handleSlotAdd ::
  "discord_api \<Rightarrow> config \<Rightarrow> interaction \<Rightarrow> int \<Rightarrow> int \<Rightarrow> string \<Rightarrow> string \<Rightarrow> unit io" where
  "handleSlotAdd orc env i now created user_uuid slot_uuid =
     io_bind (ext orc DeferReply) (\<lambda>_.
     if int_guild i = None then await_ext orc (EditReply ServerOnly)
     else
       try_catch
         (io_bind (io_read (\<lambda>st. getSlotByDiscordUserId st (du_id (opt_user i))))
            (\<lambda>existingSlot.
          if existingSlot \<noteq> None then await_ext orc (EditReply AlreadyHasSlot)
          else
            io_bind (getOrCreateUser (opt_user i) user_uuid) (\<lambda>storageUser.
            grantSlotPermissions orc env i (\<lambda>slotRoleId.
              storeNewSlot orc i storageUser slotRoleId now created slot_uuid))))
         (io_bind (console_error ''Error creating slot:'') (\<lambda>_.
            await_ext orc (EditReply FailedToCreate))))"

definition handleSlotRemove :: "discord_api \<Rightarrow> interaction \<Rightarrow> unit io" where
  "handleSlotRemove orc i =
     io_bind (ext orc DeferReply) (\<lambda>_.
     let user = opt_user i in
     case int_guild i of
       None \<Rightarrow> await_ext orc (EditReply ServerOnly)
     | Some guild_id \<Rightarrow>
         try_catch
           (io_bind (io_read (\<lambda>st. getSlotByDiscordUserId st (du_id user))) (\<lambda>found.
            case found of
              None \<Rightarrow> await_ext orc (EditReply NoActiveSlot)
            | Some slot \<Rightarrow>
                io_bind (revokeSlotPermissions orc guild_id slot) (\<lambda>_.
                io_bind (io_storage (updateSlot (slot_id slot) deactivate)) (\<lambda>_.
                await_ext orc (EditReply SlotRemoved)))))
           (io_bind (console_error ''Error removing slot:'') (\<lambda>_.
              await_ext orc (EditReply FailedToRemove))))"

subsection \<open>The monitor of @everyone and @here\<close>

record message =
  msg_id :: string
  msg_author :: string
  msg_channel :: string
  msg_guild :: "string option"

definition handleEveryonePing :: "discord_api \<Rightarrow> message \<Rightarrow> int \<Rightarrow> int \<Rightarrow> string \<Rightarrow> unit io" where
  "handleEveryonePing orc msg now used ping_uuid =
     try_catch
       (io_bind (io_read (\<lambda>st. getSlotByDiscordUserId st (msg_author msg))) (\<lambda>found.
        case found of
          None \<Rightarrow> io_ret ()
        | Some slot \<Rightarrow>
            if \<not> truthy_bool (isActive slot) then io_ret ()
            else
              (case shopTypes (shopType slot) of
                 None \<Rightarrow> io_throw
               | Some shopConfig \<Rightarrow>
                   let cooldownStart = now - pingCooldown shopConfig in
                   io_bind (io_read (\<lambda>st. getPingUsage st (slot_id slot) cooldownStart))
                     (\<lambda>recentPings.
                   if pingsPerCooldown shopConfig \<le> length recentPings then
                     io_bind (ext orc (MessageDelete (msg_id msg))) (\<lambda>_.
                     io_bind (revokeSlotPermissions orc (or_empty (msg_guild msg)) slot) (\<lambda>_.
                     io_bind (io_storage (updateSlot (slot_id slot) deactivate)) (\<lambda>_.
                     io_bind (try_catch (await_ext orc (AuthorSend (msg_author msg)))
                                (not_awaited (ext orc (ChannelSend (msg_channel msg))))) (\<lambda>_.
                     console_log ''Slot revoked due to ping abuse''))))
                   else
                     io_bind (io_storage (createPingUsage
                        \<lparr>slotId = slot_id slot, ping_discordUserId = msg_author msg,
                         messageId = Some (msg_id msg),
                         ping_channelId = Some (msg_channel msg)\<rparr> ping_uuid used)) (\<lambda>_.
                     io_ret ())))))
       (console_error ''Error handling @everyone ping:'')"

subsection \<open>The expiration checker\<close>

text \<open>
  One run of the callback that \<^verbatim>\<open>startExpirationChecker\<close> schedules every five
  minutes. The \<^verbatim>\<open>for\<close> loop runs over the array that \<^verbatim>\<open>getExpiredSlots\<close> returned.
\<close>

fun expire_loop :: "discord_api \<Rightarrow> string \<Rightarrow> slot list \<Rightarrow> unit io" where
  "expire_loop orc guildId [] = io_ret ()"
| "expire_loop orc guildId (slot # rest) =
     io_bind (revokeSlotPermissions orc guildId slot) (\<lambda>_.
     io_bind (io_storage (updateSlot (slot_id slot) deactivate)) (\<lambda>_.
     io_bind (console_log ''Expired slot'') (\<lambda>_.
     expire_loop orc guildId rest)))"

definition startExpirationChecker :: "discord_api \<Rightarrow> config \<Rightarrow> int \<Rightarrow> unit io" where
  "startExpirationChecker orc env now =
     try_catch
       (io_bind (io_read (\<lambda>st. getExpiredSlots st now)) (\<lambda>expiredSlots.
          expire_loop orc (or_empty (GUILD_ID env)) expiredSlots))
       (console_error ''Error checking slot expiration:'')"

section \<open>The HTTP route that creates a slot (server/routes.ts, POST /api/slots)\<close>

text \<open>
  \<^verbatim>\<open>req.body\<close> is the value that the JSON text of the request denotes. JSON has
  no dates: a \<^verbatim>\<open>Date\<close> of the client arrives as a string. No field of the schema
  accepts a number, an array or an object, so what a number holds does not matter.
  Of two members with one key the last one counts.
\<close>

datatype json =
    JNull | JBool bool | JNumber int | JString string
  | JArray "json list" | JObject "(string \<times> json) list"

definition json_get :: "(string \<times> json) list \<Rightarrow> string \<Rightarrow> json option" where
  "json_get members k = map_of (rev members) k"

text \<open>
  \<^verbatim>\<open>insertSlotSchema\<close> is \<^verbatim>\<open>createInsertSchema(slots).omit({ id, createdAt })\<close>. For a
  \<^verbatim>\<open>text(...).notNull()\<close> column the schema is \<^verbatim>\<open>z.string()\<close>; for the nullable
  \<^verbatim>\<open>roleId\<close> it also accepts \<^verbatim>\<open>null\<close> and a missing key; for the \<^verbatim>\<open>timestamp\<close>
  column \<^verbatim>\<open>expiresAt\<close> it is \<^verbatim>\<open>z.date()\<close>, nullable and optional, which accepts
  \<^verbatim>\<open>Date\<close> objects only, so of the values of JSON only \<^verbatim>\<open>null\<close> and a missing key;
  for \<^verbatim>\<open>isActive\<close> it is \<^verbatim>\<open>z.boolean()\<close>, nullable and optional. Each schema takes
  the member of the body (\<open>None\<close> when the key is missing) and gives the parsed value,
  or \<open>None\<close> where \<^verbatim>\<open>parse\<close> throws. Members with other keys are dropped.
\<close>

definition z_string :: "json option \<Rightarrow> string option" where
  "z_string v = (case v of Some (JString s) \<Rightarrow> Some s | _ \<Rightarrow> None)"

definition z_string_nullish :: "json option \<Rightarrow> string option option" where
  "z_string_nullish v =
     (case v of
        None \<Rightarrow> Some None
      | Some JNull \<Rightarrow> Some None
      | Some (JString s) \<Rightarrow> Some (Some s)
      | _ \<Rightarrow> None)"

definition z_date_nullish :: "json option \<Rightarrow> int option option" where
  "z_date_nullish v =
     (case v of
        None \<Rightarrow> Some None
      | Some JNull \<Rightarrow> Some None
      | _ \<Rightarrow> None)"

definition z_boolean_nullish :: "json option \<Rightarrow> bool option option" where
  "z_boolean_nullish v =
     (case v of
        None \<Rightarrow> Some None
      | Some JNull \<Rightarrow> Some None
      | Some (JBool b) \<Rightarrow> Some (Some b)
      | _ \<Rightarrow> None)"

definition insertSlotSchema_parse :: "json \<Rightarrow> insert_slot option" where
  "insertSlotSchema_parse body =
     (case body of
        JObject members \<Rightarrow>
          Option.bind (z_string (json_get members ''userId'')) (\<lambda>v_userId.
          Option.bind (z_string (json_get members ''discordUserId'')) (\<lambda>v_discordUserId.
          Option.bind (z_string (json_get members ''username'')) (\<lambda>v_username.
          Option.bind (z_string (json_get members ''shopType'')) (\<lambda>v_shopType.
          Option.bind (z_string (json_get members ''channelId'')) (\<lambda>v_channelId.
          Option.bind (z_string (json_get members ''originalChannelName'')) (\<lambda>v_original.
          Option.bind (z_string_nullish (json_get members ''roleId'')) (\<lambda>v_roleId.
          Option.bind (z_date_nullish (json_get members ''expiresAt'')) (\<lambda>v_expiresAt.
          Option.bind (z_boolean_nullish (json_get members ''isActive'')) (\<lambda>v_isActive.
          Some \<lparr>userId = v_userId, discordUserId = v_discordUserId, username = v_username,
                shopType = v_shopType, channelId = v_channelId,
                originalChannelName = v_original, roleId = v_roleId,
                expiresAt = v_expiresAt, isActive = v_isActive\<rparr>)))))))))
      | _ \<Rightarrow> None)"

datatype http_response = Status201 slot | Status400

definition post_api_slots :: "json \<Rightarrow> string \<Rightarrow> int \<Rightarrow> http_response io" where
  "post_api_slots body new_id now =
     try_catch
       (io_bind (case insertSlotSchema_parse body of
                   None \<Rightarrow> io_throw
                 | Some validatedData \<Rightarrow> io_ret validatedData)
          (\<lambda>validatedData.
        io_bind (io_storage (createSlot validatedData new_id now)) (\<lambda>slot.
        io_ret (Status201 slot))))
       (io_bind (console_error ''Error creating slot:'') (\<lambda>_. io_ret Status400))"

section \<open>Vocabulary of the statements\<close>

subsection \<open>Well-formed stores\<close>

text \<open>
  A \<^verbatim>\<open>Map\<close> has no two entries with one key, and \<^verbatim>\<open>createSlot\<close> stores every slot
  under its own \<^verbatim>\<open>id\<close>.
\<close>

definition store_inv :: "mem_storage \<Rightarrow> bool" where
  "store_inv st =
     (distinct (map fst (slots st)) \<and> distinct (map fst (pingUsage st))
      \<and> list_all (\<lambda>(k, s). slot_id s = k) (slots st))"

text \<open>The active slots of one holder, in the order of the store.\<close>

definition active_slots_of :: "mem_storage \<Rightarrow> string \<Rightarrow> slot list" where
  "active_slots_of st holder =
     filter (\<lambda>s. discordUserId s = holder \<and> truthy_bool (isActive s)) (map_values (slots st))"

subsection \<open>The quota window in the specification's words\<close>

text \<open>
  The number of ping events of a slot with used-at in the closed interval from \<open>lo\<close>
  to \<open>hi\<close>, and the property of a store that no ping event is stamped later than
  \<open>now\<close> (\<^verbatim>\<open>createPingUsage\<close> stamps each event with the clock).
\<close>

definition pings_in_window :: "mem_storage \<Rightarrow> string \<Rightarrow> int \<Rightarrow> int \<Rightarrow> nat" where
  "pings_in_window st sid lo hi =
     length (filter (\<lambda>u. slotId u = sid
                \<and> (case usedAt u of None \<Rightarrow> False | Some t \<Rightarrow> lo \<le> t \<and> t \<le> hi))
       (map_values (pingUsage st)))"

definition pings_not_after :: "mem_storage \<Rightarrow> int \<Rightarrow> bool" where
  "pings_not_after st now =
     list_all (\<lambda>u. case usedAt u of None \<Rightarrow> True | Some t \<Rightarrow> t \<le> now) (map_values (pingUsage st))"

text \<open>
  The specification's expiry criterion, in its own words: active, expires-at not null,
  and expires-at at most now.
\<close>

definition spec_expired :: "int \<Rightarrow> slot \<Rightarrow> bool" where
  "spec_expired now s =
     (isActive s = Some True \<and> (case expiresAt s of None \<Rightarrow> False | Some e \<Rightarrow> e \<le> now))"

subsection \<open>What a run does to the store and to the trace\<close>

text \<open>
  \<open>rel_on g m R\<close>: every run of \<open>m\<close> takes the part \<open>g\<close> of the store from a value to
  an \<open>R\<close>-related one, whether it returns or throws.
\<close>

definition rel_on :: "(mem_storage \<Rightarrow> 'x) \<Rightarrow> 'a io \<Rightarrow> ('x \<Rightarrow> 'x \<Rightarrow> bool) \<Rightarrow> bool" where
  "rel_on g m R = (\<forall>b. R (g (storage b)) (g (storage (snd (m b)))))"

text \<open>A rejected call, and a line of \<^verbatim>\<open>console.error\<close>, among the events of a run.\<close>

definition has_throw :: "event list \<Rightarrow> bool" where
  "has_throw evs = (\<exists>c. Ext c Throws \<in> set evs)"

definition has_error_log :: "event list \<Rightarrow> bool" where
  "has_error_log evs = (\<exists>s. ConsoleError s \<in> set evs)"

text \<open>
  \<open>logs_failures m\<close>: a run of \<open>m\<close> only appends to the trace, and when it returns
  although a call was rejected, it has written an error line. \<open>always_logs\<close> is the
  property of a \<^verbatim>\<open>catch\<close> block that writes one. \<open>appends_only A m\<close>: all events
  that \<open>m\<close> appends are in \<open>A\<close>.
\<close>

definition logs_failures :: "'a io \<Rightarrow> bool" where
  "logs_failures m =
     (\<forall>b. \<exists>evs. trace (snd (m b)) = trace b @ evs
        \<and> (fst (m b) \<noteq> Threw \<longrightarrow> has_throw evs \<longrightarrow> has_error_log evs))"

definition always_logs :: "'a io \<Rightarrow> bool" where
  "always_logs m = (\<forall>b. \<exists>evs. trace (snd (m b)) = trace b @ evs \<and> has_error_log evs)"

definition appends_only :: "event set \<Rightarrow> 'a io \<Rightarrow> bool" where
  "appends_only A m = (\<forall>b. \<exists>evs. trace (snd (m b)) = trace b @ evs \<and> set evs \<subseteq> A)"

text \<open>Everything but the two lines that only the expiration checker writes.\<close>

definition revoke_events :: "event set" where
  "revoke_events = {e. e \<noteq> ConsoleLog ''Expired slot''
                      \<and> e \<noteq> ConsoleError ''Error checking slot expiration:''}"

text \<open>
  \<open>slot_added i now slot_uuid old new\<close>: the slot map is as before, or the command
  \<open>i\<close> stored one slot of its shop type under \<open>slot_uuid\<close>, active, with the expiry
  computed from the tier table. \<open>no_active_then holder R\<close>: the map changes only when
  the holder had no active slot.
\<close>

definition slot_added :: "interaction \<Rightarrow> int \<Rightarrow> string \<Rightarrow> slot js_map \<Rightarrow> slot js_map \<Rightarrow> bool" where
  "slot_added i now slot_uuid old new =
     (new = old
      \<or> (\<exists>s cfg. shopTypes (opt_shoptype i) = Some cfg \<and> new = map_set slot_uuid s old
            \<and> slot_id s = slot_uuid \<and> shopType s = opt_shoptype i
            \<and> discordUserId s = du_id (opt_user i) \<and> isActive s = Some True
            \<and> expiresAt s = calcExpiresAt cfg now))"

definition no_active_then :: "string \<Rightarrow> (slot js_map \<Rightarrow> slot js_map \<Rightarrow> bool)
    \<Rightarrow> slot js_map \<Rightarrow> slot js_map \<Rightarrow> bool" where
  "no_active_then holder R old new =
     (new = old
      \<or> (find (\<lambda>s. discordUserId s = holder \<and> truthy_bool (isActive s)) (map_values old) = None
          \<and> R old new))"

section \<open>Example states and inputs\<close>

text \<open>
  Behaviours of Discord: every call gives \<open>out\<close>; only the replies to a command are
  accepted; only the deletion of a message is accepted.
\<close>

definition always :: "ext_outcome \<Rightarrow> discord_api" where
  "always out = (\<lambda>tr c. out)"

definition replies_only :: discord_api where
  "replies_only = (\<lambda>tr c. case c of DeferReply \<Rightarrow> Object | EditReply r \<Rightarrow> Object | _ \<Rightarrow> Throws)"

definition delete_only :: discord_api where
  "delete_only = (\<lambda>tr c. case c of MessageDelete m \<Rightarrow> Object | _ \<Rightarrow> Throws)"

definition empty_bot :: bot where
  "empty_bot = \<lparr>storage = new_storage, trace = []\<rparr>"

definition no_env :: config where
  "no_env = \<lparr>SLOT_ROLE_ID = None, GUILD_ID = None\<rparr>"

definition role_env :: config where
  "role_env = \<lparr>SLOT_ROLE_ID = Some ''r1'', GUILD_ID = Some ''g1''\<rparr>"

text \<open>An active level-1 slot that expires at time 1000.\<close>

definition boundary_slot :: slot where
  "boundary_slot =
     \<lparr>userId = ''u1'', discordUserId = ''d1'', username = ''ann'', shopType = ''level1'',
      channelId = ''c1'', originalChannelName = ''general'', roleId = Some ''r1'',
      expiresAt = Some 1000, isActive = Some True, slot_id = ''s1'', createdAt = Some 0\<rparr>"

definition boundary_store :: mem_storage where
  "boundary_store = \<lparr>users = [], slots = [(''s1'', boundary_slot)], pingUsage = []\<rparr>"

text \<open>
  Three slots (one inactive, one for life) and two ping usages, one in the last
  millisecond of the first day and one at the midnight after it.
\<close>

definition stats_store :: mem_storage where
  "stats_store =
     \<lparr>users = [],
      slots = [(''s1'', boundary_slot), (''s2'', boundary_slot\<lparr>slot_id := ''s2'', isActive := Some False\<rparr>),
               (''s3'', boundary_slot\<lparr>slot_id := ''s3'', expiresAt := None\<rparr>)],
      pingUsage = [(''p1'', \<lparr>slotId = ''s2'', ping_discordUserId = ''d1'', messageId = None,
                     ping_channelId = None, ping_id = ''p1'', usedAt = Some 86400000\<rparr>),
                   (''p2'', \<lparr>slotId = ''s1'', ping_discordUserId = ''d1'', messageId = None,
                     ping_channelId = None, ping_id = ''p2'', usedAt = Some 86399999\<rparr>)]\<rparr>"

text \<open>A partnered slot, its holder's messages, and the bot after some recorded pings.\<close>

definition partner_slot :: slot where
  "partner_slot =
     \<lparr>userId = ''u7'', discordUserId = ''d7'', username = ''Bea'', shopType = ''partnered'',
      channelId = ''c7'', originalChannelName = ''lobby'', roleId = Some ''r1'',
      expiresAt = None, isActive = Some True, slot_id = ''s7'', createdAt = Some 0\<rparr>"

definition ping_msg :: "string \<Rightarrow> message" where
  "ping_msg m = \<lparr>msg_id = m, msg_author = ''d7'', msg_channel = ''c7'', msg_guild = Some ''g1''\<rparr>"

definition partner_ping :: "string \<Rightarrow> string \<Rightarrow> int \<Rightarrow> ping_usage" where
  "partner_ping pid mid t =
     \<lparr>slotId = ''s7'', ping_discordUserId = ''d7'', messageId = Some mid,
      ping_channelId = Some ''c7'', ping_id = pid, usedAt = Some t\<rparr>"

definition partner_bot_after :: "(string \<times> ping_usage) list \<Rightarrow> bot" where
  "partner_bot_after ps =
     \<lparr>storage = \<lparr>users = [], slots = [(''s7'', partner_slot)], pingUsage = ps\<rparr>, trace = []\<rparr>"

text \<open>Four level-1 slots: two past their expiry at time 5000, one not yet, one without expiry.\<close>

definition sweep_slot :: "string \<Rightarrow> string \<Rightarrow> int option \<Rightarrow> slot" where
  "sweep_slot k holder e =
     \<lparr>userId = holder, discordUserId = holder, username = ''Cy'', shopType = ''level1'',
      channelId = ''c-'' @ k, originalChannelName = ''shop'', roleId = Some ''r1'',
      expiresAt = e, isActive = Some True, slot_id = k, createdAt = Some 0\<rparr>"

definition sweep_bot :: bot where
  "sweep_bot =
     \<lparr>storage = \<lparr>users = [],
        slots = [(''s1'', sweep_slot ''s1'' ''d1'' (Some 100)),
                 (''s2'', sweep_slot ''s2'' ''d2'' (Some 200)),
                 (''s3'', sweep_slot ''s3'' ''d3'' (Some 9000)),
                 (''s4'', sweep_slot ''s4'' ''d4'' None)],
        pingUsage = []\<rparr>,
      trace = []\<rparr>"

text \<open>
  A level-3 slot (one ping per 24 hours): revoked, with two pings on record; and active,
  with one.
\<close>

definition revoked_slot :: slot where
  "revoked_slot =
     \<lparr>userId = ''u3'', discordUserId = ''d3'', username = ''Dee'', shopType = ''level3'',
      channelId = ''c3'', originalChannelName = ''market'', roleId = Some ''r1'',
      expiresAt = Some 99999999, isActive = Some False, slot_id = ''s3'', createdAt = Some 0\<rparr>"

definition level3_ping :: "string \<Rightarrow> int \<Rightarrow> ping_usage" where
  "level3_ping pid t =
     \<lparr>slotId = ''s3'', ping_discordUserId = ''d3'', messageId = Some ''m0'',
      ping_channelId = Some ''c3'', ping_id = pid, usedAt = Some t\<rparr>"

definition revoked_bot :: bot where
  "revoked_bot =
     \<lparr>storage = \<lparr>users = [], slots = [(''s3'', revoked_slot)],
        pingUsage = [(''p1'', level3_ping ''p1'' 900), (''p2'', level3_ping ''p2'' 950)]\<rparr>,
      trace = []\<rparr>"

definition level3_bot :: bot where
  "level3_bot =
     \<lparr>storage = \<lparr>users = [], slots = [(''s3'', revoked_slot\<lparr>isActive := Some True\<rparr>)],
        pingUsage = [(''p1'', level3_ping ''p1'' 900)]\<rparr>,
      trace = []\<rparr>"

definition level3_msg :: message where
  "level3_msg = \<lparr>msg_id = ''m9'', msg_author = ''d3'', msg_channel = ''c3'', msg_guild = None\<rparr>"

definition remove_cmd :: interaction where
  "remove_cmd =
     \<lparr>int_guild = Some ''g1'', opt_user = \<lparr>du_id = ''d3'', du_username = ''Dee'', du_avatar = []\<rparr>,
      opt_shoptype = [], opt_channel = \<lparr>ch_id = [], ch_name = []\<rparr>\<rparr>"

text \<open>
  The grant command for a tier. A request body for the HTTP route with \<^verbatim>\<open>expiresAt\<close>
  \<^verbatim>\<open>null\<close>, the slot that the route stores for it, and the store after one such
  request. The body that the dashboard sends for a level-1 slot at time 500: its
  \<^verbatim>\<open>expiresAt\<close> is the date seven days later, as JSON writes it.
\<close>

definition add_cmd :: "string \<Rightarrow> interaction" where
  "add_cmd tier =
     \<lparr>int_guild = Some ''g1'', opt_user = \<lparr>du_id = ''d1'', du_username = ''Ann'', du_avatar = ''a.png''\<rparr>,
      opt_shoptype = tier, opt_channel = \<lparr>ch_id = ''c1'', ch_name = ''general''\<rparr>\<rparr>"

definition http_body :: json where
  "http_body =
     JObject [(''userId'', JString ''d1''), (''discordUserId'', JString ''d1''),
       (''username'', JString ''Ann''), (''shopType'', JString ''level1''),
       (''channelId'', JString ''c1''), (''originalChannelName'', JString ''general''),
       (''roleId'', JNull), (''expiresAt'', JNull), (''isActive'', JBool True)]"

definition http_slot :: "string \<Rightarrow> int \<Rightarrow> slot" where
  "http_slot k t =
     \<lparr>userId = ''d1'', discordUserId = ''d1'', username = ''Ann'', shopType = ''level1'',
      channelId = ''c1'', originalChannelName = ''general'', roleId = None,
      expiresAt = None, isActive = Some True, slot_id = k, createdAt = Some t\<rparr>"

definition one_slot_bot :: bot where
  "one_slot_bot =
     \<lparr>storage = \<lparr>users = [], slots = [(''h1'', http_slot ''h1'' 10)], pingUsage = []\<rparr>,
      trace = []\<rparr>"

definition dashboard_body :: json where
  "dashboard_body =
     JObject [(''discordUserId'', JString ''d1''), (''username'', JString ''Ann''),
       (''shopType'', JString ''level1''), (''channelId'', JString ''c1''),
       (''originalChannelName'', JString ''general''), (''userId'', JString ''d1''),
       (''expiresAt'', JString ''1970-01-08T00:00:00.500Z''), (''isActive'', JBool True)]"

section \<open>Auxiliary lemmas\<close>

subsection \<open>Running the control flow\<close>

lemma io_bind_Ret: "m b = (Ret x, b') \<Longrightarrow> io_bind m f b = f x b'"
  by (simp add: io_bind_def)

lemma io_bind_Threw: "m b = (Threw, b') \<Longrightarrow> io_bind m f b = (Threw, b')"
  by (simp add: io_bind_def)

lemma try_catch_Ret: "m b = (Ret x, b') \<Longrightarrow> try_catch m h b = (Ret x, b')"
  by (simp add: try_catch_def)

lemma try_catch_Threw: "m b = (Threw, b') \<Longrightarrow> try_catch m h b = h b'"
  by (simp add: try_catch_def)

lemma io_cases:
  obtains (Threw) b' where "m b = (Threw, b')" | (Ret) x b' where "m b = (Ret x, b')"
  by (cases "m b"; cases "fst (m b)") auto

subsection \<open>Rules for the effect on the store\<close>

lemma rel_on_ret: "(\<And>x. R x x) \<Longrightarrow> rel_on g (io_ret v) R"
  by (simp add: rel_on_def io_ret_def)

lemma rel_on_throw: "(\<And>x. R x x) \<Longrightarrow> rel_on g io_throw R"
  by (simp add: rel_on_def io_throw_def)

lemma rel_on_ext: "(\<And>x. R x x) \<Longrightarrow> rel_on g (ext orc c) R"
  by (simp add: rel_on_def ext_def Let_def)

lemma rel_on_console_error: "(\<And>x. R x x) \<Longrightarrow> rel_on g (console_error s) R"
  by (simp add: rel_on_def console_error_def)

lemma rel_on_console_log: "(\<And>x. R x x) \<Longrightarrow> rel_on g (console_log s) R"
  by (simp add: rel_on_def console_log_def)

lemma rel_on_read: "(\<And>x. R x x) \<Longrightarrow> rel_on g (io_read f) R"
  by (simp add: rel_on_def io_read_def)

lemma rel_on_storage: "(\<And>st. R (g st) (g (snd (f st)))) \<Longrightarrow> rel_on g (io_storage f) R"
  by (simp add: rel_on_def io_storage_def split: prod.splits) (metis snd_conv)

lemma rel_on_bind:
  assumes "rel_on g m (=)" and "\<And>x. rel_on g (f x) R" and "\<And>x. R x x"
  shows "rel_on g (io_bind m f) R"
  unfolding rel_on_def
proof
  fix b
  show "R (g (storage b)) (g (storage (snd (io_bind m f b))))"
  proof (cases rule: io_cases [of m b])
    case (Threw b')
    then show ?thesis using assms(1,3) by (simp add: io_bind_Threw rel_on_def) (metis snd_conv)
  next
    case (Ret x b')
    have "g (storage b') = g (storage b)" using assms(1) Ret by (simp add: rel_on_def) (metis snd_conv)
    then show ?thesis using assms(2) [of x] Ret by (simp add: io_bind_Ret rel_on_def) metis
  qed
qed

lemma rel_on_bind_last:
  assumes "rel_on g m R" and "\<And>x. rel_on g (f x) (=)"
  shows "rel_on g (io_bind m f) R"
  unfolding rel_on_def
proof
  fix b
  show "R (g (storage b)) (g (storage (snd (io_bind m f b))))"
  proof (cases rule: io_cases [of m b])
    case (Threw b')
    then show ?thesis using assms(1) by (simp add: io_bind_Threw rel_on_def) (metis snd_conv)
  next
    case (Ret x b')
    have "R (g (storage b)) (g (storage b'))" using assms(1) Ret by (simp add: rel_on_def) (metis snd_conv)
    moreover have "g (storage (snd (f x b'))) = g (storage b')"
      using assms(2) [of x] by (simp add: rel_on_def)
    ultimately show ?thesis using Ret by (simp add: io_bind_Ret)
  qed
qed

lemma rel_on_try_catch:
  assumes "rel_on g m R" and "rel_on g h (=)"
  shows "rel_on g (try_catch m h) R"
  unfolding rel_on_def
proof
  fix b
  show "R (g (storage b)) (g (storage (snd (try_catch m h b))))"
  proof (cases rule: io_cases [of m b])
    case (Threw b')
    have "R (g (storage b)) (g (storage b'))" using assms(1) Threw by (simp add: rel_on_def) (metis snd_conv)
    moreover have "g (storage (snd (h b'))) = g (storage b')"
      using assms(2) by (simp add: rel_on_def)
    ultimately show ?thesis using Threw by (simp add: try_catch_Threw)
  next
    case (Ret x b')
    then show ?thesis using assms(1) by (simp add: try_catch_Ret rel_on_def) (metis snd_conv)
  qed
qed

lemma rel_on_not_awaited: "rel_on g m R \<Longrightarrow> rel_on g (not_awaited m) R"
  by (simp add: rel_on_def not_awaited_def)

lemma rel_on_await_ext: "(\<And>x. R x x) \<Longrightarrow> rel_on g (await_ext orc c) R"
  unfolding await_ext_def by (intro rel_on_bind rel_on_ext rel_on_ret) auto

lemmas rel_on_eq_intros =
  rel_on_ret [where R = "(=)"] rel_on_throw [where R = "(=)"] rel_on_ext [where R = "(=)"]
  rel_on_console_error [where R = "(=)"] rel_on_console_log [where R = "(=)"]
  rel_on_read [where R = "(=)"] rel_on_await_ext [where R = "(=)"]
  rel_on_bind [where R = "(=)"] rel_on_try_catch [where R = "(=)"]
  rel_on_not_awaited [where R = "(=)"]

lemma rel_on_deref: "(\<And>x. R x x) \<Longrightarrow> rel_on g m R \<Longrightarrow> rel_on g (deref obj m) R"
  by (simp add: deref_def rel_on_throw)

lemma rel_on_if:
  "(c \<Longrightarrow> rel_on g m1 R) \<Longrightarrow> (\<not> c \<Longrightarrow> rel_on g m2 R) \<Longrightarrow> rel_on g (if c then m1 else m2) R"
  by simp

lemma revoke_keeps_storage: "rel_on g (revokeSlotPermissions orc guildId slot) (=)"
  unfolding revokeSlotPermissions_def
  by (intro rel_on_eq_intros rel_on_if rel_on_deref refl)

subsection \<open>Rules for the trace\<close>

lemma logs_ret: "logs_failures (io_ret v)"
  by (simp add: logs_failures_def io_ret_def has_throw_def)

lemma logs_throw: "logs_failures io_throw"
  by (simp add: logs_failures_def io_throw_def)

lemma logs_ext: "logs_failures (ext orc c)"
  by (simp add: logs_failures_def ext_def Let_def has_throw_def)

lemma logs_console_error: "logs_failures (console_error s)"
  by (simp add: logs_failures_def console_error_def has_error_log_def)

lemma logs_console_log: "logs_failures (console_log s)"
  by (simp add: logs_failures_def console_log_def has_throw_def)

lemma has_throw_append: "has_throw (xs @ ys) = (has_throw xs \<or> has_throw ys)"
  by (auto simp: has_throw_def)

lemma has_error_log_append: "has_error_log (xs @ ys) = (has_error_log xs \<or> has_error_log ys)"
  by (auto simp: has_error_log_def)

lemma logs_bind:
  assumes "logs_failures m" and "\<And>x. logs_failures (f x)"
  shows "logs_failures (io_bind m f)"
  unfolding logs_failures_def
proof
  fix b
  obtain evs1 where e1: "trace (snd (m b)) = trace b @ evs1"
    and l1: "fst (m b) \<noteq> Threw \<Longrightarrow> has_throw evs1 \<Longrightarrow> has_error_log evs1"
    using assms(1) unfolding logs_failures_def by blast
  show "\<exists>evs. trace (snd (io_bind m f b)) = trace b @ evs
      \<and> (fst (io_bind m f b) \<noteq> Threw \<longrightarrow> has_throw evs \<longrightarrow> has_error_log evs)"
  proof (cases rule: io_cases [of m b])
    case (Threw b')
    then show ?thesis using e1 by (simp add: io_bind_Threw)
  next
    case (Ret x b')
    obtain evs2 where e2: "trace (snd (f x b')) = trace b' @ evs2"
      and l2: "fst (f x b') \<noteq> Threw \<Longrightarrow> has_throw evs2 \<Longrightarrow> has_error_log evs2"
      using assms(2) [of x] unfolding logs_failures_def by blast
    have "trace (snd (io_bind m f b)) = trace b @ (evs1 @ evs2)"
      using Ret e1 e2 by (simp add: io_bind_Ret)
    moreover have "fst (io_bind m f b) \<noteq> Threw \<longrightarrow> has_throw (evs1 @ evs2)
        \<longrightarrow> has_error_log (evs1 @ evs2)"
      using Ret l1 l2 by (auto simp: io_bind_Ret has_throw_append has_error_log_append)
    ultimately show ?thesis by blast
  qed
qed

lemma logs_try_catch:
  assumes "logs_failures m" and "always_logs h"
  shows "logs_failures (try_catch m h)"
  unfolding logs_failures_def
proof
  fix b
  obtain evs1 where e1: "trace (snd (m b)) = trace b @ evs1"
    and l1: "fst (m b) \<noteq> Threw \<Longrightarrow> has_throw evs1 \<Longrightarrow> has_error_log evs1"
    using assms(1) unfolding logs_failures_def by blast
  show "\<exists>evs. trace (snd (try_catch m h b)) = trace b @ evs
      \<and> (fst (try_catch m h b) \<noteq> Threw \<longrightarrow> has_throw evs \<longrightarrow> has_error_log evs)"
  proof (cases rule: io_cases [of m b])
    case (Threw b')
    obtain evs2 where e2: "trace (snd (h b')) = trace b' @ evs2" and l2: "has_error_log evs2"
      using assms(2) unfolding always_logs_def by blast
    have "trace (snd (try_catch m h b)) = trace b @ (evs1 @ evs2)"
      using Threw e1 e2 by (simp add: try_catch_Threw)
    moreover have "has_error_log (evs1 @ evs2)" using l2 by (simp add: has_error_log_append)
    ultimately show ?thesis by blast
  next
    case (Ret x b')
    then show ?thesis using e1 l1 by (auto simp: try_catch_Ret)
  qed
qed

lemma always_logs_console_error: "always_logs (console_error s)"
  by (simp add: always_logs_def console_error_def has_error_log_def)

lemma logs_await_ext: "logs_failures (await_ext orc c)"
  unfolding await_ext_def by (intro logs_bind logs_ext logs_ret)

lemma logs_deref: "logs_failures m \<Longrightarrow> logs_failures (deref obj m)"
  by (simp add: deref_def logs_throw)

lemma logs_if:
  "(c \<Longrightarrow> logs_failures m1) \<Longrightarrow> (\<not> c \<Longrightarrow> logs_failures m2)
   \<Longrightarrow> logs_failures (if c then m1 else m2)"
  by simp

lemma revoke_logs_failures: "logs_failures (revokeSlotPermissions orc guildId slot)"
  unfolding revokeSlotPermissions_def
  by (intro logs_try_catch logs_bind logs_ext logs_await_ext logs_ret logs_if logs_deref
      always_logs_console_error)

lemma revoke_returns: "fst (revokeSlotPermissions orc guildId slot b) = Ret ()"
proof -
  have "fst (try_catch m (console_error s) b) = Ret ()" for m :: "unit io" and s
    by (cases rule: io_cases [of m b]) (simp_all add: try_catch_def console_error_def)
  then show ?thesis unfolding revokeSlotPermissions_def .
qed

lemma revoke_run:
  obtains b' where "revokeSlotPermissions orc guildId slot b = (Ret (), b')"
    and "storage b' = storage b"
proof -
  have "storage (snd (revokeSlotPermissions orc guildId slot b)) = storage b"
    using revoke_keeps_storage [of "\<lambda>st. st" orc guildId slot] by (simp add: rel_on_def)
  then show ?thesis
    using that [of "snd (revokeSlotPermissions orc guildId slot b)"]
      revoke_returns [of orc guildId slot b]
    by (metis prod.collapse)
qed

subsection \<open>Well-formed stores and the map operations\<close>

lemma store_inv_lookup:
  assumes "store_inv st" and "s \<in> set (map_values (slots st))"
  shows "map_of (slots st) (slot_id s) = Some s"
proof -
  obtain k where k: "(k, s) \<in> set (slots st)" using assms(2) by (auto simp: map_values_def)
  then have "slot_id s = k" using assms(1) by (auto simp: store_inv_def list_all_iff)
  then show ?thesis using k assms(1) by (simp add: store_inv_def)
qed

lemma store_inv_ids:
  assumes "store_inv st"
  shows "map slot_id (map_values (slots st)) = map fst (slots st)"
  using assms by (auto simp: store_inv_def list_all_iff map_values_def)

lemma store_inv_distinct_ids:
  assumes "store_inv st"
  shows "distinct (map slot_id (filter P (map_values (slots st))))"
proof -
  have "distinct (map slot_id (map_values (slots st)))"
    using assms store_inv_ids [OF assms] by (simp add: store_inv_def)
  then show ?thesis by (rule distinct_map_filter)
qed

lemma find_Some_mem: "find P xs = Some x \<Longrightarrow> x \<in> set xs \<and> P x"
  by (auto simp: find_Some_iff)

lemma updateSlot_found:
  "map_of (slots st) k = Some s \<Longrightarrow>
   updateSlot k f st = (Some (f s), st\<lparr>slots := AList.update k (f s) (slots st)\<rparr>)"
  by (simp add: updateSlot_def map_get_def map_set_def)

subsection \<open>The loop of the expiration checker\<close>

lemma update_keys_present:
  "map_of m k = Some old \<Longrightarrow> map fst (AList.update k v m) = map fst m"
  by (simp add: update_keys) (metis domI dom_map_of_conv_image_fst)

lemma expire_loop_run:
  assumes "distinct (map slot_id xs)"
    and "\<forall>s\<in>set xs. map_of (slots (storage b)) (slot_id s) = Some s"
  shows "\<exists>b'. expire_loop orc g xs b = (Ret (), b')
      \<and> users (storage b') = users (storage b)
      \<and> pingUsage (storage b') = pingUsage (storage b)
      \<and> map fst (slots (storage b')) = map fst (slots (storage b))
      \<and> (\<forall>k. map_of (slots (storage b')) k
             = (if k \<in> slot_id ` set xs then map_option deactivate (map_of (slots (storage b)) k)
                else map_of (slots (storage b)) k))"
  using assms
proof (induction xs arbitrary: b)
  case Nil
  then show ?case by (simp add: io_ret_def)
next
  case (Cons s rest)
  obtain b1 where r: "revokeSlotPermissions orc g s b = (Ret (), b1)"
    and st1: "storage b1 = storage b"
    by (rule revoke_run)
  have look: "map_of (slots (storage b1)) (slot_id s) = Some s"
    using Cons.prems(2) st1 by simp
  define b2 where "b2 = b1\<lparr>storage := (storage b1)\<lparr>slots :=
      AList.update (slot_id s) (deactivate s) (slots (storage b1))\<rparr>\<rparr>"
  define b3 where "b3 = b2\<lparr>trace := trace b2 @ [ConsoleLog ''Expired slot'']\<rparr>"
  have u: "io_storage (updateSlot (slot_id s) deactivate) b1 = (Ret (Some (deactivate s)), b2)"
    by (simp add: io_storage_def updateSlot_found [OF look] b2_def)
  have c: "console_log ''Expired slot'' b2 = (Ret (), b3)"
    by (simp add: console_log_def b3_def)
  have step: "expire_loop orc g (s # rest) b = expire_loop orc g rest b3"
    by (simp only: expire_loop.simps
        io_bind_Ret [of "revokeSlotPermissions orc g s" b, OF r]
        io_bind_Ret [of "io_storage (updateSlot (slot_id s) deactivate)" b1, OF u]
        io_bind_Ret [of "console_log ''Expired slot''" b2, OF c])
  have st3: "storage b3 = (storage b)\<lparr>slots :=
      AList.update (slot_id s) (deactivate s) (slots (storage b))\<rparr>"
    by (simp add: b3_def b2_def st1)
  have map2: "map_of (slots (storage b3)) = (map_of (slots (storage b)))(slot_id s \<mapsto> deactivate s)"
    by (simp add: st3 update_conv')
  have keys2: "map fst (slots (storage b3)) = map fst (slots (storage b))"
    using look by (simp add: st3 st1 update_keys_present)
  have notin: "slot_id s \<notin> slot_id ` set rest" using Cons.prems(1) by simp
  have pre: "\<forall>s'\<in>set rest. map_of (slots (storage b3)) (slot_id s') = Some s'"
  proof
    fix s' assume in_rest: "s' \<in> set rest"
    then have "slot_id s' \<noteq> slot_id s" using notin by (metis imageI)
    moreover have "map_of (slots (storage b)) (slot_id s') = Some s'"
      using Cons.prems(2) in_rest by simp
    ultimately show "map_of (slots (storage b3)) (slot_id s') = Some s'" by (simp add: map2)
  qed
  obtain b' where run: "expire_loop orc g rest b3 = (Ret (), b')"
    and us: "users (storage b') = users (storage b3)"
    and p: "pingUsage (storage b') = pingUsage (storage b3)"
    and k: "map fst (slots (storage b')) = map fst (slots (storage b3))"
    and m: "\<And>k. map_of (slots (storage b')) k
             = (if k \<in> slot_id ` set rest
                then map_option deactivate (map_of (slots (storage b3)) k)
                else map_of (slots (storage b3)) k)"
    using Cons.IH [of b3] Cons.prems(1) pre by auto
  have "users (storage b') = users (storage b)"
    using us by (simp add: st3)
  moreover have "pingUsage (storage b') = pingUsage (storage b)"
    using p by (simp add: st3)
  moreover have "map fst (slots (storage b')) = map fst (slots (storage b))"
    using k keys2 by simp
  moreover have "map_of (slots (storage b')) k
      = (if k \<in> slot_id ` set (s # rest)
         then map_option deactivate (map_of (slots (storage b)) k)
         else map_of (slots (storage b)) k)" for k
  proof (cases "k = slot_id s")
    case True
    then have "k \<notin> slot_id ` set rest" using notin by simp
    then have "map_of (slots (storage b')) k = Some (deactivate s)"
      using m [of k] True by (simp add: map2)
    moreover have "map_of (slots (storage b)) k = Some s" using Cons.prems(2) True by simp
    ultimately show ?thesis using True by simp
  next
    case False
    then show ?thesis using m [of k] by (simp add: map2)
  qed
  ultimately show ?case unfolding step run by blast
qed

lemma map_of_values:
  "distinct (map fst m) \<Longrightarrow> v \<in> set (map_values m) \<longleftrightarrow> (\<exists>k. map_of m k = Some v)"
  by (auto simp: map_values_def intro: map_of_SomeD)
     (metis map_of_SomeD snd_conv image_iff)

lemma expiration_run:
  assumes inv: "store_inv (storage b)"
  shows "\<exists>b'. startExpirationChecker orc env now b = (Ret (), b')
      \<and> users (storage b') = users (storage b)
      \<and> pingUsage (storage b') = pingUsage (storage b)
      \<and> map fst (slots (storage b')) = map fst (slots (storage b))
      \<and> (\<forall>k. map_of (slots (storage b')) k
             = (if k \<in> slot_id ` set (getExpiredSlots (storage b) now)
                then map_option deactivate (map_of (slots (storage b)) k)
                else map_of (slots (storage b)) k))"
proof -
  let ?xs = "getExpiredSlots (storage b) now"
  have d: "distinct (map slot_id ?xs)"
    unfolding getExpiredSlots_def by (rule store_inv_distinct_ids [OF inv])
  have l: "\<forall>s\<in>set ?xs. map_of (slots (storage b)) (slot_id s) = Some s"
    using store_inv_lookup [OF inv] by (auto simp: getExpiredSlots_def)
  obtain b' where run: "expire_loop orc (or_empty (GUILD_ID env)) ?xs b = (Ret (), b')"
    and rest: "users (storage b') = users (storage b)"
      "pingUsage (storage b') = pingUsage (storage b)"
      "map fst (slots (storage b')) = map fst (slots (storage b))"
      "\<forall>k. map_of (slots (storage b')) k
             = (if k \<in> slot_id ` set ?xs
                then map_option deactivate (map_of (slots (storage b)) k)
                else map_of (slots (storage b)) k)"
    using expire_loop_run [OF d l, of orc "or_empty (GUILD_ID env)"] by blast
  have "startExpirationChecker orc env now b = (Ret (), b')"
    using run by (simp add: startExpirationChecker_def try_catch_def io_bind_def io_read_def)
  then show ?thesis using rest by blast
qed

lemma expiration_run_inv:
  assumes inv: "store_inv (storage b)"
    and run: "startExpirationChecker orc env now b = (r, b')"
  shows "store_inv (storage b')"
proof -
  obtain b'' where 1: "startExpirationChecker orc env now b = (Ret (), b'')"
    and p: "pingUsage (storage b'') = pingUsage (storage b)"
    and k: "map fst (slots (storage b'')) = map fst (slots (storage b))"
    and m: "\<And>k. map_of (slots (storage b'')) k
             = (if k \<in> slot_id ` set (getExpiredSlots (storage b) now)
                then map_option deactivate (map_of (slots (storage b)) k)
                else map_of (slots (storage b)) k)"
    using expiration_run [OF inv, of orc env now] by blast
  have eq: "b'' = b'" using 1 run by simp
  have dk: "distinct (map fst (slots (storage b')))" using k inv eq by (simp add: store_inv_def)
  have "slot_id s = key" if "(key, s) \<in> set (slots (storage b'))" for key s
  proof -
    have "map_of (slots (storage b')) key = Some s" using that dk by simp
    then have "\<exists>s0. map_of (slots (storage b)) key = Some s0 \<and> (s = s0 \<or> s = deactivate s0)"
      using m [of key] eq by (cases "map_of (slots (storage b)) key") (auto split: if_splits)
    then obtain s0 where s0: "(key, s0) \<in> set (slots (storage b))" and "s = s0 \<or> s = deactivate s0"
      by (auto dest: map_of_SomeD)
    then show ?thesis using inv by (auto simp: store_inv_def list_all_iff deactivate_def)
  qed
  then show ?thesis using dk p inv eq by (auto simp: store_inv_def list_all_iff)
qed

lemma expiration_run_none_left:
  assumes inv: "store_inv (storage b)"
    and run: "startExpirationChecker orc env now b = (r, b')"
    and s: "s \<in> set (getExpiredSlots (storage b') now2)"
  shows "slot_id s \<notin> slot_id ` set (getExpiredSlots (storage b) now)"
    and "now2 \<le> now \<Longrightarrow> False"
proof -
  obtain b'' where 1: "startExpirationChecker orc env now b = (Ret (), b'')"
    and m: "\<And>k. map_of (slots (storage b'')) k
             = (if k \<in> slot_id ` set (getExpiredSlots (storage b) now)
                then map_option deactivate (map_of (slots (storage b)) k)
                else map_of (slots (storage b)) k)"
    using expiration_run [OF inv, of orc env now] by blast
  have eq: "b'' = b'" using 1 run by simp
  have inv': "store_inv (storage b')" by (rule expiration_run_inv [OF inv run])
  have mem: "s \<in> set (map_values (slots (storage b')))" and act: "truthy_bool (isActive s)"
    and ex: "case expiresAt s of None \<Rightarrow> False | Some e \<Rightarrow> e < now2"
    using s by (auto simp: getExpiredSlots_def)
  have look: "map_of (slots (storage b')) (slot_id s) = Some s"
    by (rule store_inv_lookup [OF inv' mem])
  show notin: "slot_id s \<notin> slot_id ` set (getExpiredSlots (storage b) now)"
  proof
    assume "slot_id s \<in> slot_id ` set (getExpiredSlots (storage b) now)"
    then have "\<exists>s0. s = deactivate s0" using m [of "slot_id s"] look eq
      by (cases "map_of (slots (storage b)) (slot_id s)") auto
    then show False using act by (auto simp: deactivate_def truthy_bool_def)
  qed
  show "now2 \<le> now \<Longrightarrow> False"
  proof -
    assume le: "now2 \<le> now"
    have "map_of (slots (storage b)) (slot_id s) = Some s"
      using m [of "slot_id s"] look eq notin by simp
    then have "s \<in> set (map_values (slots (storage b)))"
      by (auto simp: map_values_def dest!: map_of_SomeD intro: image_eqI [where x = "(slot_id s, s)"])
    then have "s \<in> set (getExpiredSlots (storage b) now)"
      using act ex le by (auto simp: getExpiredSlots_def truthy_date_def split: option.splits)
    then show False using notin by blast
  qed
qed

subsection \<open>Runs of the ping monitor\<close>

lemma revoke_run_trace:
  obtains b' evs where "revokeSlotPermissions orc guildId slot b = (Ret (), b')"
    and "storage b' = storage b" and "trace b' = trace b @ evs"
    and "has_throw evs \<longrightarrow> has_error_log evs"
proof -
  obtain b' where r: "revokeSlotPermissions orc guildId slot b = (Ret (), b')"
    and s: "storage b' = storage b"
    by (rule revoke_run)
  obtain evs where "trace (snd (revokeSlotPermissions orc guildId slot b)) = trace b @ evs"
    and "fst (revokeSlotPermissions orc guildId slot b) \<noteq> Threw \<longrightarrow> has_throw evs
         \<longrightarrow> has_error_log evs"
    using revoke_logs_failures [of orc guildId slot] unfolding logs_failures_def by blast
  then show ?thesis using that [of b' evs] r s by simp
qed

lemma ping_ignored:
  assumes "getSlotByDiscordUserId (storage b) (msg_author msg) = None"
  shows "handleEveryonePing orc msg now used ping_uuid b = (Ret (), b)"
  using assms
  by (simp add: handleEveryonePing_def try_catch_def io_bind_def io_read_def io_ret_def)

lemma found_is_active:
  "getSlotByDiscordUserId st uid = Some s \<Longrightarrow>
   truthy_bool (isActive s) \<and> discordUserId s = uid \<and> s \<in> set (map_values (slots st))"
  by (auto simp: getSlotByDiscordUserId_def dest: find_Some_mem)

lemma ping_allowed:
  assumes found: "getSlotByDiscordUserId (storage b) (msg_author msg) = Some s"
    and cfg: "shopTypes (shopType s) = Some shopConfig"
    and under: "length (getPingUsage (storage b) (slot_id s) (now - pingCooldown shopConfig))
                < pingsPerCooldown shopConfig"
  shows "handleEveryonePing orc msg now used ping_uuid b
     = (Ret (), b\<lparr>storage := snd (createPingUsage
          \<lparr>slotId = slot_id s, ping_discordUserId = msg_author msg,
           messageId = Some (msg_id msg), ping_channelId = Some (msg_channel msg)\<rparr>
          ping_uuid used (storage b))\<rparr>)"
proof -
  have act: "truthy_bool (isActive s)" using found_is_active [OF found] by simp
  show ?thesis
    using found cfg under act
    by (simp add: handleEveryonePing_def try_catch_def io_bind_def io_read_def io_ret_def
        io_storage_def Let_def split: prod.splits)
qed

lemma dm_tail_run:
  "\<exists>b' evs. io_bind (try_catch (await_ext orc (AuthorSend a))
                (not_awaited (ext orc (ChannelSend c)))) (\<lambda>_. console_log s) b = (Ret (), b')
     \<and> storage b' = storage b \<and> trace b' = trace b @ evs"
  by (simp add: io_bind_def try_catch_def await_ext_def not_awaited_def ext_def io_ret_def
      console_log_def Let_def)

lemma ping_over_limit:
  assumes found: "getSlotByDiscordUserId (storage b) (msg_author msg) = Some s"
    and cfg: "shopTypes (shopType s) = Some shopConfig"
    and over: "pingsPerCooldown shopConfig
                \<le> length (getPingUsage (storage b) (slot_id s) (now - pingCooldown shopConfig))"
    and look: "map_of (slots (storage b)) (slot_id s) = Some s"
  shows "\<exists>b' evs. handleEveryonePing orc msg now used ping_uuid b = (Ret (), b')
     \<and> trace b' = trace b @ Ext (MessageDelete (msg_id msg)) (orc (trace b) (MessageDelete (msg_id msg))) # evs
     \<and> storage b' = (if orc (trace b) (MessageDelete (msg_id msg)) = Throws then storage b
          else (storage b)\<lparr>slots := AList.update (slot_id s) (deactivate s) (slots (storage b))\<rparr>)"
proof -
  let ?out = "orc (trace b) (MessageDelete (msg_id msg))"
  let ?b0 = "b\<lparr>trace := trace b @ [Ext (MessageDelete (msg_id msg)) ?out]\<rparr>"
  let ?over = "io_bind (ext orc (MessageDelete (msg_id msg))) (\<lambda>_.
                 io_bind (revokeSlotPermissions orc (or_empty (msg_guild msg)) s) (\<lambda>_.
                 io_bind (io_storage (updateSlot (slot_id s) deactivate)) (\<lambda>_.
                 io_bind (try_catch (await_ext orc (AuthorSend (msg_author msg)))
                            (not_awaited (ext orc (ChannelSend (msg_channel msg))))) (\<lambda>_.
                 console_log ''Slot revoked due to ping abuse''))))"
  have act: "truthy_bool (isActive s)" using found_is_active [OF found] by simp
  have unfold: "handleEveryonePing orc msg now used ping_uuid b
      = try_catch ?over (console_error ''Error handling @everyone ping:'') b"
    using found cfg over act
    by (simp add: handleEveryonePing_def try_catch_def io_bind_def io_read_def Let_def)
  show ?thesis
  proof (cases "?out = Throws")
    case True
    have "?over b = (Threw, ?b0)" using True by (simp add: io_bind_def ext_def Let_def)
    then have "handleEveryonePing orc msg now used ping_uuid b
        = (Ret (), ?b0\<lparr>trace := trace ?b0 @ [ConsoleError ''Error handling @everyone ping:'']\<rparr>)"
      unfolding unfold by (simp add: try_catch_def console_error_def)
    then show ?thesis using True by simp
  next
    case False
    have d: "ext orc (MessageDelete (msg_id msg)) b = (Ret ?out, ?b0)"
      using False by (simp add: ext_def Let_def)
    obtain b1 evs1 where r: "revokeSlotPermissions orc (or_empty (msg_guild msg)) s ?b0 = (Ret (), b1)"
      and s1: "storage b1 = storage ?b0" and t1: "trace b1 = trace ?b0 @ evs1"
      by (rule revoke_run_trace)
    define b2 where "b2 = b1\<lparr>storage := (storage b1)\<lparr>slots :=
        AList.update (slot_id s) (deactivate s) (slots (storage b1))\<rparr>\<rparr>"
    have look1: "map_of (slots (storage b1)) (slot_id s) = Some s" using look s1 by simp
    have u: "io_storage (updateSlot (slot_id s) deactivate) b1 = (Ret (Some (deactivate s)), b2)"
      by (simp add: io_storage_def updateSlot_found [OF look1] b2_def)
    obtain b3 evs3 where t: "io_bind (try_catch (await_ext orc (AuthorSend (msg_author msg)))
                (not_awaited (ext orc (ChannelSend (msg_channel msg)))))
                (\<lambda>_. console_log ''Slot revoked due to ping abuse'') b2 = (Ret (), b3)"
      and s3: "storage b3 = storage b2" and t3: "trace b3 = trace b2 @ evs3"
      using dm_tail_run [of orc "msg_author msg" "msg_channel msg"
          "''Slot revoked due to ping abuse''" b2] by blast
    have "?over b = (Ret (), b3)"
      by (simp only: io_bind_Ret [of "ext orc (MessageDelete (msg_id msg))" b, OF d]
          io_bind_Ret [of "revokeSlotPermissions orc (or_empty (msg_guild msg)) s" ?b0, OF r]
          io_bind_Ret [of "io_storage (updateSlot (slot_id s) deactivate)" b1, OF u] t)
    then have run: "handleEveryonePing orc msg now used ping_uuid b = (Ret (), b3)"
      unfolding unfold by (simp add: try_catch_def)
    have "storage b3 = (storage b)\<lparr>slots :=
        AList.update (slot_id s) (deactivate s) (slots (storage b))\<rparr>"
      using s3 s1 by (simp add: b2_def)
    moreover have "trace b3 = trace b @ Ext (MessageDelete (msg_id msg)) ?out # (evs1 @ evs3)"
      using t3 t1 by (simp add: b2_def)
    ultimately show ?thesis using run False by simp
  qed
qed

lemma pings_in_window_code:
  assumes "pings_not_after st now"
  shows "length (getPingUsage st sid lo) = pings_in_window st sid lo now"
proof -
  have "filter (\<lambda>u. slotId u = sid \<and> truthy_date (usedAt u)
                 \<and> (case usedAt u of None \<Rightarrow> False | Some t \<Rightarrow> lo \<le> t)) (map_values (pingUsage st))
      = filter (\<lambda>u. slotId u = sid
                \<and> (case usedAt u of None \<Rightarrow> False | Some t \<Rightarrow> lo \<le> t \<and> t \<le> now))
          (map_values (pingUsage st))"
    using assms
    by (intro filter_cong refl)
       (auto simp: pings_not_after_def list_all_iff truthy_date_def split: option.splits)
  then show ?thesis by (simp add: getPingUsage_def pings_in_window_def)
qed

lemma update_fresh: "k \<notin> set (map fst m) \<Longrightarrow> AList.update k v m = m @ [(k, v)]"
  by (induction m) auto

lemma partner_found:
  "getSlotByDiscordUserId (storage (partner_bot_after ps)) (msg_author (ping_msg m)) = Some partner_slot"
  by (simp add: partner_bot_after_def getSlotByDiscordUserId_def map_values_def partner_slot_def
      ping_msg_def truthy_bool_def)

lemma partner_cfg:
  "shopTypes (shopType partner_slot)
     = Some \<lparr>shop_name = ''Partnered'', duration = None,
              pingCooldown = 24 * 60 * 60 * 1000, pingsPerCooldown = 2\<rparr>"
  by (simp add: shopTypes_def partner_slot_def)

subsection \<open>Runs of the remove command, and the last active slot of a holder\<close>

lemma no_active_slot_iff:
  "active_slots_of st holder = [] \<longleftrightarrow> getSlotByDiscordUserId st holder = None"
  by (auto simp: active_slots_of_def getSlotByDiscordUserId_def filter_empty_conv find_None_iff)

lemma storage_try_catch_tail:
  assumes "m b0 = t b2" and "rel_on (\<lambda>st. st) t (=)" and "rel_on (\<lambda>st. st) h (=)"
  shows "storage (snd (try_catch m h b0)) = storage b2"
proof (cases rule: io_cases [of t b2])
  case (Threw b')
  have "storage b' = storage b2" using assms(2) Threw by (simp add: rel_on_def) (metis snd_conv)
  moreover have "storage (snd (h b')) = storage b'" using assms(3) by (simp add: rel_on_def)
  ultimately show ?thesis using Threw assms(1) by (simp add: try_catch_def)
next
  case (Ret x b')
  have "storage b' = storage b2" using assms(2) Ret by (simp add: rel_on_def) (metis snd_conv)
  then show ?thesis using Ret assms(1) by (simp add: try_catch_def)
qed

lemma slot_remove_run:
  assumes deferred: "orc (trace b) DeferReply \<noteq> Throws"
    and guild: "int_guild i = Some g"
    and found: "getSlotByDiscordUserId (storage b) (du_id (opt_user i)) = Some s"
    and look: "map_of (slots (storage b)) (slot_id s) = Some s"
  shows "storage (snd (handleSlotRemove orc i b))
     = (storage b)\<lparr>slots := AList.update (slot_id s) (deactivate s) (slots (storage b))\<rparr>"
proof -
  let ?b0 = "b\<lparr>trace := trace b @ [Ext DeferReply (orc (trace b) DeferReply)]\<rparr>"
  let ?body = "io_bind (io_read (\<lambda>st. getSlotByDiscordUserId st (du_id (opt_user i)))) (\<lambda>found.
            case found of
              None \<Rightarrow> await_ext orc (EditReply NoActiveSlot)
            | Some slot \<Rightarrow>
                io_bind (revokeSlotPermissions orc g slot) (\<lambda>_.
                io_bind (io_storage (updateSlot (slot_id slot) deactivate)) (\<lambda>_.
                await_ext orc (EditReply SlotRemoved))))"
  let ?handler = "io_bind (console_error ''Error removing slot:'') (\<lambda>_.
              await_ext orc (EditReply FailedToRemove))"
  have d: "ext orc DeferReply b = (Ret (orc (trace b) DeferReply), ?b0)"
    using deferred by (simp add: ext_def Let_def)
  have unfold: "handleSlotRemove orc i b = try_catch ?body ?handler ?b0"
    using guild by (simp add: handleSlotRemove_def io_bind_Ret [of "ext orc DeferReply" b, OF d])
  obtain b1 where r: "revokeSlotPermissions orc g s ?b0 = (Ret (), b1)"
    and s1: "storage b1 = storage ?b0"
    by (rule revoke_run)
  define b2 where "b2 = b1\<lparr>storage := (storage b1)\<lparr>slots :=
      AList.update (slot_id s) (deactivate s) (slots (storage b1))\<rparr>\<rparr>"
  have look1: "map_of (slots (storage b1)) (slot_id s) = Some s" using look s1 by simp
  have u: "io_storage (updateSlot (slot_id s) deactivate) b1 = (Ret (Some (deactivate s)), b2)"
    by (simp add: io_storage_def updateSlot_found [OF look1] b2_def)
  have "?body ?b0 = io_bind (revokeSlotPermissions orc g s) (\<lambda>_.
                io_bind (io_storage (updateSlot (slot_id s) deactivate)) (\<lambda>_.
                await_ext orc (EditReply SlotRemoved))) ?b0"
    using found by (simp add: io_bind_def io_read_def)
  also have "\<dots> = await_ext orc (EditReply SlotRemoved) b2"
    by (simp only: io_bind_Ret [of "revokeSlotPermissions orc g s" ?b0, OF r]
        io_bind_Ret [of "io_storage (updateSlot (slot_id s) deactivate)" b1, OF u])
  finally have body: "?body ?b0 = await_ext orc (EditReply SlotRemoved) b2" .
  have "storage (snd (try_catch ?body ?handler ?b0)) = storage b2"
    by (rule storage_try_catch_tail [of ?body ?b0 "await_ext orc (EditReply SlotRemoved)" b2
          ?handler, OF body])
       (intro rel_on_eq_intros refl)+
  then show ?thesis unfolding unfold using s1 by (simp add: b2_def)
qed

lemma updated_entries:
  assumes "distinct (map fst m)" and "(k', v) \<in> set (AList.update k v0 m)"
  shows "(k' = k \<and> v = v0) \<or> (k' \<noteq> k \<and> (k', v) \<in> set m)"
proof -
  have "distinct (map fst (AList.update k v0 m))" using assms(1) by (rule distinct_update)
  then have "map_of (AList.update k v0 m) k' = Some v" using assms(2) by simp
  then have "((map_of m)(k \<mapsto> v0)) k' = Some v" by (simp add: update_conv')
  then show ?thesis by (auto split: if_splits dest: map_of_SomeD)
qed

lemma two_members_short_list:
  "x \<in> set xs \<Longrightarrow> y \<in> set xs \<Longrightarrow> length xs \<le> 1 \<Longrightarrow> x = y"
  by (cases xs) auto

lemma deactivate_last_active:
  assumes inv: "store_inv st"
    and found: "getSlotByDiscordUserId st holder = Some s"
    and one: "length (active_slots_of st holder) \<le> 1"
  shows "getSlotByDiscordUserId
           (st\<lparr>slots := AList.update (slot_id s) (deactivate s) (slots st)\<rparr>) holder = None"
proof -
  let ?st' = "st\<lparr>slots := AList.update (slot_id s) (deactivate s) (slots st)\<rparr>"
  have s_in: "s \<in> set (active_slots_of st holder)"
    using found_is_active [OF found] by (simp add: active_slots_of_def)
  have "\<not> (discordUserId v = holder \<and> truthy_bool (isActive v))"
    if v_in: "v \<in> set (map_values (slots ?st'))" for v
  proof
    assume P: "discordUserId v = holder \<and> truthy_bool (isActive v)"
    obtain k' where k': "(k', v) \<in> set (AList.update (slot_id s) (deactivate s) (slots st))"
      using v_in by (auto simp: map_values_def)
    have d: "distinct (map fst (slots st))" using inv by (simp add: store_inv_def)
    from updated_entries [OF d k'] show False
    proof
      assume "k' = slot_id s \<and> v = deactivate s"
      then show False using P by (simp add: deactivate_def truthy_bool_def)
    next
      assume old: "k' \<noteq> slot_id s \<and> (k', v) \<in> set (slots st)"
      then have "v \<in> set (map_values (slots st))"
        by (auto simp: map_values_def intro: image_eqI [where x = "(k', v)"])
      then have "v \<in> set (active_slots_of st holder)" using P by (simp add: active_slots_of_def)
      then have "v = s" using s_in one by (rule two_members_short_list)
      moreover have "slot_id v = k'" using old inv by (auto simp: store_inv_def list_all_iff)
      ultimately show False using old by simp
    qed
  qed
  then show ?thesis
    by (simp add: getSlotByDiscordUserId_def find_None_iff)
qed

subsection \<open>Facts about the example states\<close>

lemma level3_bot_facts:
  "store_inv (storage level3_bot)"
  "getSlotByDiscordUserId (storage level3_bot) ''d3'' = Some (revoked_slot\<lparr>isActive := Some True\<rparr>)"
  "shopTypes (shopType (revoked_slot\<lparr>isActive := Some True\<rparr>))
     = Some \<lparr>shop_name = ''Level 3'', duration = Some (30 * 24 * 60 * 60 * 1000),
             pingCooldown = 24 * 60 * 60 * 1000, pingsPerCooldown = 1\<rparr>"
  "length (getPingUsage (storage level3_bot) ''s3'' (1000 - 24 * 60 * 60 * 1000)) = 1"
  "length (active_slots_of (storage level3_bot) ''d3'') = 1"
  "deactivate (revoked_slot\<lparr>isActive := Some True\<rparr>) = revoked_slot"
  by (simp_all add: store_inv_def level3_bot_def revoked_slot_def level3_ping_def
      getSlotByDiscordUserId_def map_values_def truthy_bool_def truthy_date_def shopTypes_def
      getPingUsage_def active_slots_of_def deactivate_def)

subsection \<open>The grant command\<close>

lemma slot_added_refl: "slot_added i now su x x"
  by (simp add: slot_added_def)

lemma rel_on_case_option:
  "rel_on g m1 R \<Longrightarrow> (\<And>x. rel_on g (m2 x) R)
   \<Longrightarrow> rel_on g (case v of None \<Rightarrow> m1 | Some x \<Rightarrow> m2 x) R"
  by (cases v) simp_all

lemma createUser_slots: "slots (snd (createUser ins k st)) = slots st"
  by (simp add: createUser_def Let_def)

lemma getOrCreateUser_slots: "rel_on slots (getOrCreateUser u k) (=)"
  unfolding getOrCreateUser_def
  by (intro rel_on_eq_intros rel_on_case_option rel_on_storage refl)
     (simp add: createUser_slots)

lemma createSlot_added:
  assumes "shopTypes (opt_shoptype i) = Some cfg"
  shows "slot_added i now su (slots st)
     (slots (snd (createSlot
             \<lparr>userId = uid, discordUserId = du_id (opt_user i),
              username = uname, shopType = opt_shoptype i,
              channelId = cid, originalChannelName = cname,
              roleId = rid, expiresAt = calcExpiresAt cfg now,
              isActive = Some True\<rparr> su created st)))"
  unfolding slot_added_def
  apply (rule disjI2)
  apply (rule exI [where x = "\<lparr>userId = uid, discordUserId = du_id (opt_user i),
              username = uname, shopType = opt_shoptype i,
              channelId = cid, originalChannelName = cname,
              roleId = rid, expiresAt = calcExpiresAt cfg now,
              isActive = Some True, slot_id = su, createdAt = Some created\<rparr>"])
  apply (rule exI [where x = cfg])
  apply (simp add: assms createSlot_def Let_def insert_slot.extend_def slot.fields_def)
  done

lemma storeNewSlot_rel:
  "rel_on slots (storeNewSlot orc i storageUser slotRoleId now created su) (slot_added i now su)"
proof (cases "shopTypes (opt_shoptype i)")
  case None
  then show ?thesis
    by (simp add: storeNewSlot_def rel_on_throw slot_added_refl)
next
  case (Some cfg)
  have "rel_on slots (io_bind (io_storage (createSlot
             \<lparr>userId = user_id storageUser, discordUserId = du_id (opt_user i),
              username = du_username (opt_user i), shopType = opt_shoptype i,
              channelId = ch_id (opt_channel i),
              originalChannelName = ch_name (opt_channel i),
              roleId = Some slotRoleId, expiresAt = calcExpiresAt cfg now,
              isActive = Some True\<rparr> su created)) (\<lambda>_.
          await_ext orc (EditReply SlotCreated))) (slot_added i now su)"
    by (intro rel_on_bind_last rel_on_storage rel_on_await_ext createSlot_added Some refl)
  then show ?thesis by (simp add: storeNewSlot_def Some)
qed

lemma grantSlotPermissions_rel:
  assumes "\<And>r. rel_on g (k r) R" and "\<And>x. R x x"
  shows "rel_on g (grantSlotPermissions orc env i k) R"
  unfolding grantSlotPermissions_def
  by (intro rel_on_if rel_on_bind rel_on_deref rel_on_await_ext rel_on_ext assms refl)

lemma handleSlotAdd_rel:
  "rel_on slots (handleSlotAdd orc env i now created uu su) (slot_added i now su)"
  unfolding handleSlotAdd_def
  by (intro rel_on_if rel_on_bind rel_on_try_catch rel_on_await_ext rel_on_ext rel_on_read
      rel_on_eq_intros getOrCreateUser_slots grantSlotPermissions_rel storeNewSlot_rel
      slot_added_refl refl)

lemma tier_expiry:
  assumes "shopTypes ty = Some cfg"
  shows "(calcExpiresAt cfg now = None \<longleftrightarrow> ty = ''level4'' \<or> ty = ''partnered'')
     \<and> (\<forall>d. duration cfg = Some d \<longrightarrow> calcExpiresAt cfg now = Some (now + d))
     \<and> (ty = ''level1'' \<longrightarrow> calcExpiresAt cfg now = Some (now + 7 * 24 * 60 * 60 * 1000))"
  using assms
  by (auto simp: shopTypes_def calcExpiresAt_def split: if_splits)

lemma rel_on_mono: "rel_on g m R \<Longrightarrow> (\<And>a c. R a c \<Longrightarrow> R' a c) \<Longrightarrow> rel_on g m R'"
  by (simp add: rel_on_def)

lemma rel_on_read_existing:
  assumes "\<And>x. rel_on slots (f x)
      (\<lambda>old new. x = find (\<lambda>s. discordUserId s = uid \<and> truthy_bool (isActive s)) (map_values old)
         \<longrightarrow> R old new)"
  shows "rel_on slots (io_bind (io_read (\<lambda>st. getSlotByDiscordUserId st uid)) f) R"
  using assms by (simp add: rel_on_def io_bind_def io_read_def getSlotByDiscordUserId_def)

lemma handleSlotAdd_checks_first:
  "rel_on slots (handleSlotAdd orc env i now created uu su)
     (no_active_then (du_id (opt_user i)) (slot_added i now su))"
proof -
  let ?R = "no_active_then (du_id (opt_user i)) (slot_added i now su)"
  have refl: "?R x x" for x by (simp add: no_active_then_def)
  have rest: "rel_on slots
      (io_bind (getOrCreateUser (opt_user i) uu) (\<lambda>storageUser.
            grantSlotPermissions orc env i (\<lambda>slotRoleId.
              storeNewSlot orc i storageUser slotRoleId now created su)))
      (slot_added i now su)"
    by (intro rel_on_bind getOrCreateUser_slots grantSlotPermissions_rel storeNewSlot_rel
        slot_added_refl)
  have body: "rel_on slots
      (io_bind (io_read (\<lambda>st. getSlotByDiscordUserId st (du_id (opt_user i))))
            (\<lambda>existingSlot.
          if existingSlot \<noteq> None then await_ext orc (EditReply AlreadyHasSlot)
          else
            io_bind (getOrCreateUser (opt_user i) uu) (\<lambda>storageUser.
            grantSlotPermissions orc env i (\<lambda>slotRoleId.
              storeNewSlot orc i storageUser slotRoleId now created su)))) ?R"
  proof (rule rel_on_read_existing, rule rel_on_if)
    fix x :: "slot option"
    show "rel_on slots (await_ext orc (EditReply AlreadyHasSlot))
        (\<lambda>old new. x = find (\<lambda>s. discordUserId s = du_id (opt_user i) \<and> truthy_bool (isActive s))
              (map_values old) \<longrightarrow> ?R old new)"
      by (rule rel_on_await_ext) (simp add: refl)
  next
    fix x :: "slot option"
    assume "\<not> x \<noteq> None"
    then have x: "x = None" by simp
    show "rel_on slots
        (io_bind (getOrCreateUser (opt_user i) uu) (\<lambda>storageUser.
            grantSlotPermissions orc env i (\<lambda>slotRoleId.
              storeNewSlot orc i storageUser slotRoleId now created su)))
        (\<lambda>old new. x = find (\<lambda>s. discordUserId s = du_id (opt_user i) \<and> truthy_bool (isActive s))
              (map_values old) \<longrightarrow> ?R old new)"
      by (rule rel_on_mono [OF rest]) (simp add: x no_active_then_def)
  qed
  show ?thesis
    unfolding handleSlotAdd_def
    by (intro rel_on_bind rel_on_if rel_on_try_catch rel_on_ext rel_on_await_ext body refl
        rel_on_eq_intros HOL.refl)
qed

lemma filter_update_le:
  "length (filter P (map snd (AList.update k v m)))
     \<le> length (filter P (map snd m)) + (if P v then 1 else 0)"
  by (induction m) auto

lemma handleSlotAdd_keeps_one_active:
  assumes "\<forall>h. length (active_slots_of (storage b) h) \<le> 1"
  shows "length (active_slots_of (storage (snd (handleSlotAdd orc env i now created uu su b))) h)
           \<le> 1"
proof -
  let ?old = "slots (storage b)"
  let ?new = "slots (storage (snd (handleSlotAdd orc env i now created uu su b)))"
  let ?P = "\<lambda>h s. discordUserId s = h \<and> truthy_bool (isActive s)"
  have "no_active_then (du_id (opt_user i)) (slot_added i now su) ?old ?new"
    using handleSlotAdd_checks_first [of orc env i now created uu su] by (simp add: rel_on_def)
  then consider (same) "?new = ?old"
    | (added) s where "find (?P (du_id (opt_user i))) (map_values ?old) = None"
        "?new = map_set su s ?old" "discordUserId s = du_id (opt_user i)"
    unfolding no_active_then_def slot_added_def by auto
  then show ?thesis
  proof cases
    case same
    then show ?thesis using assms by (simp add: active_slots_of_def)
  next
    case (added s)
    have le: "length (filter (?P h) (map snd ?new))
        \<le> length (filter (?P h) (map snd ?old)) + (if ?P h s then 1 else 0)"
      unfolding added(2) map_set_def by (rule filter_update_le)
    have le1: "length (filter (?P h) (map snd ?new)) \<le> length (filter (?P h) (map snd ?old)) + 1"
      by (rule order_trans [OF le]) simp
    have fold: "active_slots_of st h = filter (?P h) (map snd (slots st))" for st
      by (simp add: active_slots_of_def map_values_def)
    show ?thesis
    proof (cases "h = du_id (opt_user i)")
      case True
      have "filter (?P h) (map snd ?old) = []"
        using added(1) True
        by (auto simp: find_None_iff filter_empty_conv map_values_def)
      then have "length (filter (?P h) (map snd ?old)) = 0" by simp
      then show ?thesis unfolding fold using le1 by linarith
    next
      case False
      then have "(if ?P h s then 1 else 0) = (0::nat)" using added(3) by simp
      then have "length (filter (?P h) (map snd ?new)) \<le> length (filter (?P h) (map snd ?old))"
        using le by (simp only: add_0_right)
      moreover have "length (filter (?P h) (map snd ?old)) \<le> 1"
        using assms [THEN spec, of h] unfolding fold .
      ultimately show ?thesis unfolding fold by linarith
    qed
  qed
qed

lemma handleSlotAdd_duplicate:
  assumes "getSlotByDiscordUserId (storage b) (du_id (opt_user i)) \<noteq> None"
  shows "slots (storage (snd (handleSlotAdd orc env i now created uu su b))) = slots (storage b)"
proof -
  have "no_active_then (du_id (opt_user i)) (slot_added i now su) (slots (storage b))
      (slots (storage (snd (handleSlotAdd orc env i now created uu su b))))"
    using handleSlotAdd_checks_first [of orc env i now created uu su] by (simp add: rel_on_def)
  then show ?thesis using assms by (auto simp: no_active_then_def getSlotByDiscordUserId_def)
qed

subsection \<open>Which events a run appends\<close>

lemma appends_ret: "appends_only A (io_ret v)"
  by (simp add: appends_only_def io_ret_def)

lemma appends_ext: "(\<And>out. Ext c out \<in> A) \<Longrightarrow> appends_only A (ext orc c)"
  by (simp add: appends_only_def ext_def Let_def)

lemma appends_console_error: "ConsoleError s \<in> A \<Longrightarrow> appends_only A (console_error s)"
  by (simp add: appends_only_def console_error_def)

lemma appends_bind:
  assumes "appends_only A m" and "\<And>x. appends_only A (f x)"
  shows "appends_only A (io_bind m f)"
  unfolding appends_only_def
proof
  fix b
  obtain evs1 where e1: "trace (snd (m b)) = trace b @ evs1" and a1: "set evs1 \<subseteq> A"
    using assms(1) unfolding appends_only_def by blast
  show "\<exists>evs. trace (snd (io_bind m f b)) = trace b @ evs \<and> set evs \<subseteq> A"
  proof (cases rule: io_cases [of m b])
    case (Threw b')
    then show ?thesis using e1 a1 by (simp add: io_bind_Threw)
  next
    case (Ret x b')
    obtain evs2 where e2: "trace (snd (f x b')) = trace b' @ evs2" and a2: "set evs2 \<subseteq> A"
      using assms(2) [of x] unfolding appends_only_def by blast
    have "trace (snd (io_bind m f b)) = trace b @ (evs1 @ evs2)"
      using Ret e1 e2 by (simp add: io_bind_Ret)
    moreover have "set (evs1 @ evs2) \<subseteq> A" using a1 a2 by simp
    ultimately show ?thesis by blast
  qed
qed

lemma appends_try_catch:
  assumes "appends_only A m" and "appends_only A h"
  shows "appends_only A (try_catch m h)"
  unfolding appends_only_def
proof
  fix b
  obtain evs1 where e1: "trace (snd (m b)) = trace b @ evs1" and a1: "set evs1 \<subseteq> A"
    using assms(1) unfolding appends_only_def by blast
  show "\<exists>evs. trace (snd (try_catch m h b)) = trace b @ evs \<and> set evs \<subseteq> A"
  proof (cases rule: io_cases [of m b])
    case (Threw b')
    obtain evs2 where e2: "trace (snd (h b')) = trace b' @ evs2" and a2: "set evs2 \<subseteq> A"
      using assms(2) unfolding appends_only_def by blast
    have "trace (snd (try_catch m h b)) = trace b @ (evs1 @ evs2)"
      using Threw e1 e2 by (simp add: try_catch_Threw)
    moreover have "set (evs1 @ evs2) \<subseteq> A" using a1 a2 by simp
    ultimately show ?thesis by blast
  next
    case (Ret x b')
    then show ?thesis using e1 a1 by (simp add: try_catch_Ret)
  qed
qed

lemma appends_await_ext: "(\<And>out. Ext c out \<in> A) \<Longrightarrow> appends_only A (await_ext orc c)"
  unfolding await_ext_def by (intro appends_bind appends_ext appends_ret)

lemma appends_deref: "appends_only A m \<Longrightarrow> appends_only A (deref obj m)"
  by (simp add: deref_def appends_only_def io_throw_def)

lemma appends_if:
  "(c \<Longrightarrow> appends_only A m1) \<Longrightarrow> (\<not> c \<Longrightarrow> appends_only A m2)
   \<Longrightarrow> appends_only A (if c then m1 else m2)"
  by simp

lemma revoke_appends: "appends_only revoke_events (revokeSlotPermissions orc guildId slot)"
  unfolding revokeSlotPermissions_def
  by (intro appends_try_catch appends_bind appends_if appends_deref appends_ext
      appends_await_ext appends_ret appends_console_error)
     (simp_all add: revoke_events_def)

lemma expire_loop_trace:
  "\<exists>evs. expire_loop orc g xs b = (Ret (), snd (expire_loop orc g xs b))
     \<and> trace (snd (expire_loop orc g xs b)) = trace b @ evs
     \<and> length (filter (\<lambda>e. e = ConsoleLog ''Expired slot'') evs) = length xs
     \<and> ConsoleError ''Error checking slot expiration:'' \<notin> set evs"
proof (induction xs arbitrary: b)
  case Nil
  then show ?case by (simp add: io_ret_def)
next
  case (Cons s rest)
  obtain b1 where r: "revokeSlotPermissions orc g s b = (Ret (), b1)"
    by (rule revoke_run)
  obtain evs1 where t1: "trace b1 = trace b @ evs1" and a1: "set evs1 \<subseteq> revoke_events"
    using revoke_appends [of orc g s] r unfolding appends_only_def by (metis snd_conv)
  obtain x b2 where u: "io_storage (updateSlot (slot_id s) deactivate) b1 = (Ret x, b2)"
    and t2: "trace b2 = trace b1"
    by (cases "updateSlot (slot_id s) deactivate (storage b1)") (simp add: io_storage_def)
  define b3 where "b3 = b2\<lparr>trace := trace b2 @ [ConsoleLog ''Expired slot'']\<rparr>"
  have c: "console_log ''Expired slot'' b2 = (Ret (), b3)"
    by (simp add: console_log_def b3_def)
  have step: "expire_loop orc g (s # rest) b = expire_loop orc g rest b3"
    by (simp only: expire_loop.simps
        io_bind_Ret [of "revokeSlotPermissions orc g s" b, OF r]
        io_bind_Ret [of "io_storage (updateSlot (slot_id s) deactivate)" b1, OF u]
        io_bind_Ret [of "console_log ''Expired slot''" b2, OF c])
  obtain evs where run: "expire_loop orc g rest b3 = (Ret (), snd (expire_loop orc g rest b3))"
    and t: "trace (snd (expire_loop orc g rest b3)) = trace b3 @ evs"
    and n: "length (filter (\<lambda>e. e = ConsoleLog ''Expired slot'') evs) = length rest"
    and e: "ConsoleError ''Error checking slot expiration:'' \<notin> set evs"
    using Cons.IH [of b3] by blast
  let ?evs = "evs1 @ ConsoleLog ''Expired slot'' # evs"
  have none: "filter (\<lambda>e. e = ConsoleLog ''Expired slot'') evs1 = []"
    using a1 by (auto simp: filter_empty_conv revoke_events_def)
  have "trace (snd (expire_loop orc g (s # rest) b)) = trace b @ ?evs"
    unfolding step t by (simp add: b3_def t2 t1)
  moreover have "length (filter (\<lambda>e. e = ConsoleLog ''Expired slot'') ?evs) = length (s # rest)"
    using n none by simp
  moreover have "ConsoleError ''Error checking slot expiration:'' \<notin> set ?evs"
    using e a1 by (auto simp: revoke_events_def)
  moreover have "expire_loop orc g (s # rest) b = (Ret (), snd (expire_loop orc g (s # rest) b))"
    unfolding step using run by simp
  ultimately show ?case by blast
qed

lemma expiration_trace:
  "\<exists>evs. trace (snd (startExpirationChecker orc env now b)) = trace b @ evs
     \<and> length (filter (\<lambda>e. e = ConsoleLog ''Expired slot'') evs)
         = length (getExpiredSlots (storage b) now)
     \<and> ConsoleError ''Error checking slot expiration:'' \<notin> set evs"
proof -
  let ?xs = "getExpiredSlots (storage b) now"
  obtain b' where run: "expire_loop orc (or_empty (GUILD_ID env)) ?xs b = (Ret (), b')"
    using expire_loop_trace [of orc "or_empty (GUILD_ID env)" ?xs b] by blast
  have "startExpirationChecker orc env now b = expire_loop orc (or_empty (GUILD_ID env)) ?xs b"
    by (simp add: startExpirationChecker_def try_catch_def io_bind_def io_read_def run)
  then show ?thesis
    using expire_loop_trace [of orc "or_empty (GUILD_ID env)" ?xs b] by simp
qed

subsection \<open>The expiry that the grant command stores, and the HTTP route on the example bodies\<close>

lemma handleSlotAdd_expiry:
  "slots (storage (snd (handleSlotAdd orc env i now created user_uuid slot_uuid b)))
      = slots (storage b)
    \<or> (\<exists>s cfg. shopTypes (opt_shoptype i) = Some cfg
          \<and> slots (storage (snd (handleSlotAdd orc env i now created user_uuid slot_uuid b)))
              = map_set slot_uuid s (slots (storage b))
          \<and> slot_id s = slot_uuid \<and> shopType s = opt_shoptype i \<and> isActive s = Some True
          \<and> (expiresAt s = None \<longleftrightarrow> shopType s = ''level4'' \<or> shopType s = ''partnered'')
          \<and> (\<forall>d. duration cfg = Some d \<longrightarrow> expiresAt s = Some (now + d))
          \<and> (shopType s = ''level1'' \<longrightarrow> expiresAt s = Some (now + 7 * 24 * 60 * 60 * 1000)))"
proof -
  let ?new = "slots (storage (snd (handleSlotAdd orc env i now created user_uuid slot_uuid b)))"
  have "slot_added i now slot_uuid (slots (storage b)) ?new"
    using handleSlotAdd_rel [of orc env i now created user_uuid slot_uuid]
    by (simp add: rel_on_def)
  then show "?new = slots (storage b)
    \<or> (\<exists>s cfg. shopTypes (opt_shoptype i) = Some cfg
          \<and> ?new = map_set slot_uuid s (slots (storage b))
          \<and> slot_id s = slot_uuid \<and> shopType s = opt_shoptype i \<and> isActive s = Some True
          \<and> (expiresAt s = None \<longleftrightarrow> shopType s = ''level4'' \<or> shopType s = ''partnered'')
          \<and> (\<forall>d. duration cfg = Some d \<longrightarrow> expiresAt s = Some (now + d))
          \<and> (shopType s = ''level1'' \<longrightarrow> expiresAt s = Some (now + 7 * 24 * 60 * 60 * 1000)))"
    unfolding slot_added_def
  proof (elim disjE exE conjE)
    assume "?new = slots (storage b)"
    then show ?thesis by (rule disjI1)
  next
    fix s cfg
    assume cfg: "shopTypes (opt_shoptype i) = Some cfg"
      and new: "?new = map_set slot_uuid s (slots (storage b))"
      and props: "slot_id s = slot_uuid" "shopType s = opt_shoptype i" "isActive s = Some True"
      and ex: "expiresAt s = calcExpiresAt cfg now"
    have "(expiresAt s = None \<longleftrightarrow> shopType s = ''level4'' \<or> shopType s = ''partnered'')
        \<and> (\<forall>d. duration cfg = Some d \<longrightarrow> expiresAt s = Some (now + d))
        \<and> (shopType s = ''level1'' \<longrightarrow> expiresAt s = Some (now + 7 * 24 * 60 * 60 * 1000))"
      unfolding ex props(2) by (rule tier_expiry [OF cfg])
    then have "shopTypes (opt_shoptype i) = Some cfg
          \<and> ?new = map_set slot_uuid s (slots (storage b))
          \<and> slot_id s = slot_uuid \<and> shopType s = opt_shoptype i \<and> isActive s = Some True
          \<and> (expiresAt s = None \<longleftrightarrow> shopType s = ''level4'' \<or> shopType s = ''partnered'')
          \<and> (\<forall>d. duration cfg = Some d \<longrightarrow> expiresAt s = Some (now + d))
          \<and> (shopType s = ''level1'' \<longrightarrow> expiresAt s = Some (now + 7 * 24 * 60 * 60 * 1000))"
      using cfg new props by simp
    then show ?thesis by (intro disjI2 exI)
  qed
qed

lemma handleSlotAdd_expiry_example:
  "map_values (slots (storage (snd (handleSlotAdd (always Object) role_env (add_cmd ''level1'')
        1000 1002 ''u1'' ''s1'' empty_bot))))
     = [\<lparr>userId = ''u1'', discordUserId = ''d1'', username = ''Ann'', shopType = ''level1'',
         channelId = ''c1'', originalChannelName = ''general'', roleId = Some ''r1'',
         expiresAt = Some 604801000, isActive = Some True, slot_id = ''s1'',
         createdAt = Some 1002\<rparr>]
   \<and> map_values (slots (storage (snd (handleSlotAdd (always Object) role_env (add_cmd ''partnered'')
        1000 1002 ''u1'' ''s1'' empty_bot))))
     = [\<lparr>userId = ''u1'', discordUserId = ''d1'', username = ''Ann'', shopType = ''partnered'',
         channelId = ''c1'', originalChannelName = ''general'', roleId = Some ''r1'',
         expiresAt = None, isActive = Some True, slot_id = ''s1'',
         createdAt = Some 1002\<rparr>]"
  by (simp add: handleSlotAdd_def grantSlotPermissions_def storeNewSlot_def getOrCreateUser_def
      calcExpiresAt_def shopTypes_def
      try_catch_def io_bind_def io_ret_def io_storage_def io_read_def ext_def await_ext_def
      Let_def always_def role_env_def add_cmd_def empty_bot_def new_storage_def
      getSlotByDiscordUserId_def getUserByDiscordId_def createUser_def createSlot_def
      map_values_def map_set_def truthy_string_def or_empty_def falsy_def deref_def
      insert_slot.extend_def slot.fields_def insert_user.extend_def user.fields_def
      insert_slot.defs slot.defs insert_user.defs user.defs)

lemma http_body_parse:
  "insertSlotSchema_parse http_body
     = Some \<lparr>userId = ''d1'', discordUserId = ''d1'', username = ''Ann'', shopType = ''level1'',
        channelId = ''c1'', originalChannelName = ''general'', roleId = None,
        expiresAt = None, isActive = Some True\<rparr>"
  by (simp add: insertSlotSchema_parse_def http_body_def json_get_def z_string_def
      z_string_nullish_def z_date_nullish_def z_boolean_nullish_def)

lemma dashboard_body_parse: "insertSlotSchema_parse dashboard_body = None"
  by (simp add: insertSlotSchema_parse_def dashboard_body_def json_get_def z_string_def
      z_string_nullish_def z_date_nullish_def z_boolean_nullish_def)

lemma post_http_body:
  "post_api_slots http_body k t b
     = (Ret (Status201 (http_slot k t)),
        b\<lparr>storage := (storage b)\<lparr>slots := map_set k (http_slot k t) (slots (storage b))\<rparr>\<rparr>)"
  by (simp add: post_api_slots_def http_body_parse try_catch_def io_bind_def io_ret_def
      io_storage_def createSlot_def Let_def http_slot_def insert_slot.extend_def slot.fields_def)

lemma local_midnight_bounds:
  "local_midnight tz now \<le> now \<and> now < local_midnight tz now + day_ms
   \<and> (local_midnight tz now + tz) mod day_ms = 0"
proof -
  have pos: "0 < day_ms" by (simp add: day_ms_def)
  have a: "0 \<le> (now + tz) mod day_ms" using pos by simp
  have b: "(now + tz) mod day_ms < day_ms" using pos by simp
  have c: "(now + tz - (now + tz) mod day_ms) mod day_ms = 0"
    by (simp add: minus_mod_eq_mult_div)
  have d: "local_midnight tz now + tz = now + tz - (now + tz) mod day_ms"
    by (simp add: local_midnight_def)
  have e: "(local_midnight tz now + tz) mod day_ms = 0"
    unfolding d by (rule c)
  have f: "local_midnight tz now \<le> now" using a by (simp add: local_midnight_def)
  have g: "now < local_midnight tz now + day_ms" using b by (simp add: local_midnight_def)
  show ?thesis using e f g by blast
qed

lemma length_filter_conj_le:
  "length (filter (\<lambda>x. P x \<and> Q x) xs) \<le> length (filter (\<lambda>x. P x \<and> R x) xs)"
  if "\<And>x. Q x \<Longrightarrow> R x"
  using that by (induction xs) auto

section \<open>The claims\<close>
subsection \<open>C1: at most one active slot per holder\<close>

text \<open>
  C1 asks that every operation that creates a slot keeps at most one active slot per
  holder. The slash command does (lemma \<open>handleSlotAdd_keeps_one_active\<close>): it looks
  the holder up first. The HTTP route does not look: from the empty store, two
  requests for one holder leave that holder with two active slots.
\<close>

theorem http_route_second_active_slot:
  "snd (post_api_slots http_body ''h1'' 10 empty_bot) = one_slot_bot
   \<and> map slot_id (active_slots_of (storage one_slot_bot) ''d1'') = [''h1'']
   \<and> map slot_id (active_slots_of
        (storage (snd (post_api_slots http_body ''h2'' 20 one_slot_bot))) ''d1'')
      = [''h1'', ''h2'']"
  by (simp add: post_http_body map_set_def empty_bot_def new_storage_def one_slot_bot_def
      http_slot_def active_slots_of_def map_values_def truthy_bool_def)

subsection \<open>C2: the quota decision of the ping monitor\<close>

text \<open>
  C2: a holder with an active slot of a tier in the table sends a ping at time \<open>now\<close>,
  in a well-formed store whose ping events are not stamped later than \<open>now\<close>; let
  \<open>W\<close> be the tier's \<open>pingCooldown\<close> and \<open>Q\<close> its \<open>pingsPerCooldown\<close>. If at least \<open>Q\<close>
  ping events of the slot have used-at in \<open>[now - W, now]\<close>, the monitor takes the
  over-limit branch: its first action is to delete the message, it records no ping
  event, and when the deletion is accepted the slot is deactivated. Otherwise the run
  is allowed: nothing is sent to Discord, nothing is logged, and exactly one ping
  event, stamped with the clock, is appended under the fresh id. The partnered tier
  has \<open>Q = 2\<close> and \<open>W\<close> = 24 hours.
\<close>

theorem ping_quota_decision:
  assumes inv: "store_inv (storage b)"
    and found: "getSlotByDiscordUserId (storage b) (msg_author msg) = Some s"
    and cfg: "shopTypes (shopType s) = Some shopConfig"
    and past: "pings_not_after (storage b) now"
    and fresh: "\<not> map_has (pingUsage (storage b)) ping_uuid"
  shows "(pingsPerCooldown shopConfig
            \<le> pings_in_window (storage b) (slot_id s) (now - pingCooldown shopConfig) now
          \<longrightarrow> (\<exists>b' evs. handleEveryonePing orc msg now used ping_uuid b = (Ret (), b')
                \<and> pingUsage (storage b') = pingUsage (storage b)
                \<and> trace b' = trace b @ Ext (MessageDelete (msg_id msg))
                      (orc (trace b) (MessageDelete (msg_id msg))) # evs
                \<and> (orc (trace b) (MessageDelete (msg_id msg)) \<noteq> Throws
                    \<longrightarrow> getSlot (storage b') (slot_id s) = Some (deactivate s))))
      \<and> (pings_in_window (storage b) (slot_id s) (now - pingCooldown shopConfig) now
            < pingsPerCooldown shopConfig
          \<longrightarrow> handleEveryonePing orc msg now used ping_uuid b
              = (Ret (), b\<lparr>storage := (storage b)\<lparr>pingUsage := pingUsage (storage b) @
                   [(ping_uuid, \<lparr>slotId = slot_id s, ping_discordUserId = msg_author msg,
                       messageId = Some (msg_id msg), ping_channelId = Some (msg_channel msg),
                       ping_id = ping_uuid, usedAt = Some used\<rparr>)]\<rparr>\<rparr>))
      \<and> shopTypes ''partnered''
          = Some \<lparr>shop_name = ''Partnered'', duration = None,
                  pingCooldown = 24 * 60 * 60 * 1000, pingsPerCooldown = 2\<rparr>"
proof -
  let ?used = "pings_in_window (storage b) (slot_id s) (now - pingCooldown shopConfig) now"
  have count: "length (getPingUsage (storage b) (slot_id s) (now - pingCooldown shopConfig)) = ?used"
    by (rule pings_in_window_code [OF past])
  have look: "map_of (slots (storage b)) (slot_id s) = Some s"
    using store_inv_lookup [OF inv] found_is_active [OF found] by simp
  have over: "\<exists>b' evs. handleEveryonePing orc msg now used ping_uuid b = (Ret (), b')
                \<and> pingUsage (storage b') = pingUsage (storage b)
                \<and> trace b' = trace b @ Ext (MessageDelete (msg_id msg))
                      (orc (trace b) (MessageDelete (msg_id msg))) # evs
                \<and> (orc (trace b) (MessageDelete (msg_id msg)) \<noteq> Throws
                    \<longrightarrow> getSlot (storage b') (slot_id s) = Some (deactivate s))"
    if "pingsPerCooldown shopConfig \<le> ?used"
  proof -
    have over': "pingsPerCooldown shopConfig
        \<le> length (getPingUsage (storage b) (slot_id s) (now - pingCooldown shopConfig))"
      using that count by simp
    obtain b' evs where run: "handleEveryonePing orc msg now used ping_uuid b = (Ret (), b')"
      and tr: "trace b' = trace b @ Ext (MessageDelete (msg_id msg))
                (orc (trace b) (MessageDelete (msg_id msg))) # evs"
      and st: "storage b' = (if orc (trace b) (MessageDelete (msg_id msg)) = Throws then storage b
          else (storage b)\<lparr>slots := AList.update (slot_id s) (deactivate s) (slots (storage b))\<rparr>)"
      using ping_over_limit [OF found cfg over' look, of orc used ping_uuid] by blast
    have "pingUsage (storage b') = pingUsage (storage b)" using st by simp
    moreover have "orc (trace b) (MessageDelete (msg_id msg)) \<noteq> Throws
        \<longrightarrow> getSlot (storage b') (slot_id s) = Some (deactivate s)"
      using st by (simp add: getSlot_def map_get_def update_conv')
    ultimately show ?thesis using run tr by blast
  qed
  have under: "handleEveryonePing orc msg now used ping_uuid b
       = (Ret (), b\<lparr>storage := (storage b)\<lparr>pingUsage := pingUsage (storage b) @
                   [(ping_uuid, \<lparr>slotId = slot_id s, ping_discordUserId = msg_author msg,
                       messageId = Some (msg_id msg), ping_channelId = Some (msg_channel msg),
                       ping_id = ping_uuid, usedAt = Some used\<rparr>)]\<rparr>\<rparr>)"
    if "?used < pingsPerCooldown shopConfig"
  proof -
    have "ping_uuid \<notin> set (map fst (pingUsage (storage b)))" using fresh by (simp add: map_has_def)
    then have "snd (createPingUsage
          \<lparr>slotId = slot_id s, ping_discordUserId = msg_author msg,
           messageId = Some (msg_id msg), ping_channelId = Some (msg_channel msg)\<rparr>
          ping_uuid used (storage b))
        = (storage b)\<lparr>pingUsage := pingUsage (storage b) @
                   [(ping_uuid, \<lparr>slotId = slot_id s, ping_discordUserId = msg_author msg,
                       messageId = Some (msg_id msg), ping_channelId = Some (msg_channel msg),
                       ping_id = ping_uuid, usedAt = Some used\<rparr>)]\<rparr>"
      by (simp add: createPingUsage_def Let_def map_set_def update_fresh
          insert_ping_usage.extend_def ping_usage.fields_def)
    moreover have "length (getPingUsage (storage b) (slot_id s) (now - pingCooldown shopConfig))
        < pingsPerCooldown shopConfig"
      using that count by simp
    ultimately show ?thesis
      using ping_allowed [OF found cfg, of now orc used ping_uuid] by simp
  qed
  have table: "shopTypes ''partnered''
          = Some \<lparr>shop_name = ''Partnered'', duration = None,
                  pingCooldown = 24 * 60 * 60 * 1000, pingsPerCooldown = 2\<rparr>"
    by (simp add: shopTypes_def)
  show ?thesis using over under table by blast
qed

text \<open>
  The partnered scenario: two pings inside the window are recorded, the third is
  over the limit, its message is deleted and the slot is deactivated.
\<close>

theorem ping_quota_decision_witness:
  "handleEveryonePing (always Object) (ping_msg ''m1'') 1000 1001 ''p1'' (partner_bot_after [])
     = (Ret (), partner_bot_after [(''p1'', partner_ping ''p1'' ''m1'' 1001)])
   \<and> handleEveryonePing (always Object) (ping_msg ''m2'') 2000 2001 ''p2''
        (partner_bot_after [(''p1'', partner_ping ''p1'' ''m1'' 1001)])
     = (Ret (), partner_bot_after [(''p1'', partner_ping ''p1'' ''m1'' 1001),
                                   (''p2'', partner_ping ''p2'' ''m2'' 2001)])
   \<and> pingUsage (storage (snd (handleEveryonePing (always Object) (ping_msg ''m3'') 3000 3001 ''p3''
        (partner_bot_after [(''p1'', partner_ping ''p1'' ''m1'' 1001),
                            (''p2'', partner_ping ''p2'' ''m2'' 2001)]))))
     = [(''p1'', partner_ping ''p1'' ''m1'' 1001), (''p2'', partner_ping ''p2'' ''m2'' 2001)]
   \<and> hd (trace (snd (handleEveryonePing (always Object) (ping_msg ''m3'') 3000 3001 ''p3''
        (partner_bot_after [(''p1'', partner_ping ''p1'' ''m1'' 1001),
                            (''p2'', partner_ping ''p2'' ''m2'' 2001)]))))
     = Ext (MessageDelete ''m3'') Object
   \<and> getSlot (storage (snd (handleEveryonePing (always Object) (ping_msg ''m3'') 3000 3001 ''p3''
        (partner_bot_after [(''p1'', partner_ping ''p1'' ''m1'' 1001),
                            (''p2'', partner_ping ''p2'' ''m2'' 2001)])))) ''s7''
     = Some (deactivate partner_slot)"
proof -
  let ?ps1 = "[(''p1'', partner_ping ''p1'' ''m1'' 1001)]"
  let ?ps2 = "[(''p1'', partner_ping ''p1'' ''m1'' 1001), (''p2'', partner_ping ''p2'' ''m2'' 2001)]"
  let ?cfg = "\<lparr>shop_name = ''Partnered'', duration = None,
              pingCooldown = 24 * 60 * 60 * 1000, pingsPerCooldown = 2\<rparr>"
  have inv: "store_inv (storage (partner_bot_after ps))" if "distinct (map fst ps)" for ps
    using that by (simp add: store_inv_def partner_bot_after_def partner_slot_def)
  have w0: "pings_in_window (storage (partner_bot_after [])) (slot_id partner_slot)
      (1000 - pingCooldown ?cfg) 1000 = 0"
    by (simp add: pings_in_window_def partner_bot_after_def map_values_def)
  have w1: "pings_in_window (storage (partner_bot_after ?ps1)) (slot_id partner_slot)
      (2000 - pingCooldown ?cfg) 2000 = 1"
    by (simp add: pings_in_window_def partner_bot_after_def map_values_def partner_ping_def
        partner_slot_def)
  have w2: "pings_in_window (storage (partner_bot_after ?ps2)) (slot_id partner_slot)
      (3000 - pingCooldown ?cfg) 3000 = 2"
    by (simp add: pings_in_window_def partner_bot_after_def map_values_def partner_ping_def
        partner_slot_def)
  have first: "handleEveryonePing (always Object) (ping_msg ''m1'') 1000 1001 ''p1''
      (partner_bot_after []) = (Ret (), partner_bot_after ?ps1)"
    using ping_quota_decision [OF inv partner_found partner_cfg, of "[]" 1000 "''p1''"
        "always Object" "''m1''" 1001] w0
    by (simp add: pings_not_after_def map_has_def partner_bot_after_def map_values_def
        partner_ping_def partner_slot_def ping_msg_def)
  have second: "handleEveryonePing (always Object) (ping_msg ''m2'') 2000 2001 ''p2''
      (partner_bot_after ?ps1) = (Ret (), partner_bot_after ?ps2)"
    using ping_quota_decision [OF inv partner_found partner_cfg, of ?ps1 2000 "''p2''"
        "always Object" "''m2''" 2001] w1
    by (simp add: pings_not_after_def map_has_def partner_bot_after_def map_values_def
        partner_ping_def partner_slot_def ping_msg_def)
  have third: "\<exists>b' evs. handleEveryonePing (always Object) (ping_msg ''m3'') 3000 3001 ''p3''
      (partner_bot_after ?ps2) = (Ret (), b')
      \<and> pingUsage (storage b') = ?ps2
      \<and> trace b' = Ext (MessageDelete ''m3'') Object # evs
      \<and> getSlot (storage b') ''s7'' = Some (deactivate partner_slot)"
    using ping_quota_decision [OF inv partner_found partner_cfg, of ?ps2 3000 "''p3''"
        "always Object" "''m3''" 3001] w2
    by (simp add: pings_not_after_def map_has_def partner_bot_after_def map_values_def
        partner_ping_def partner_slot_def ping_msg_def always_def)
  then obtain b' evs where "handleEveryonePing (always Object) (ping_msg ''m3'') 3000 3001 ''p3''
      (partner_bot_after ?ps2) = (Ret (), b')"
      "pingUsage (storage b') = ?ps2" "trace b' = Ext (MessageDelete ''m3'') Object # evs"
      "getSlot (storage b') ''s7'' = Some (deactivate partner_slot)"
    by blast
  then show ?thesis using first second by simp
qed

subsection \<open>C3: a grant for a holder who already has an active slot\<close>

text \<open>
  C3 asks that such a grant fails and leaves the store as it was, at every entry
  point. The slash command replies and stores nothing (lemma
  \<open>handleSlotAdd_duplicate\<close>). The HTTP route answers 201 for a holder whose active
  slot is in the store, writes no error line, and the store holds a second record.
\<close>

theorem http_route_accepts_duplicate_grant:
  "map_option slot_id (getSlotByDiscordUserId (storage one_slot_bot) ''d1'') = Some ''h1''
   \<and> fst (post_api_slots http_body ''h2'' 20 one_slot_bot) = Ret (Status201 (http_slot ''h2'' 20))
   \<and> discordUserId (http_slot ''h2'' 20) = ''d1''
   \<and> map fst (slots (storage (snd (post_api_slots http_body ''h2'' 20 one_slot_bot))))
     = [''h1'', ''h2'']
   \<and> trace (snd (post_api_slots http_body ''h2'' 20 one_slot_bot)) = []"
  by (simp add: post_http_body map_set_def one_slot_bot_def http_slot_def
      getSlotByDiscordUserId_def map_values_def truthy_bool_def)

subsection \<open>C4: which slots getExpiredSlots returns\<close>

text \<open>
  C4, as the code has it: for every store and every time \<open>now\<close>, \<^verbatim>\<open>getExpiredSlots\<close>
  returns, in the order of the store, exactly the slots with \<open>isActive\<close> true and a
  non-null \<open>expiresAt\<close> that is strictly before \<open>now\<close>. Nothing else decides
  membership.
\<close>

theorem getExpiredSlots_strict:
  "getExpiredSlots st now =
     filter (\<lambda>s. isActive s = Some True \<and> (\<exists>e. expiresAt s = Some e \<and> e < now))
       (map_values (slots st))"
  unfolding getExpiredSlots_def truthy_bool_def truthy_date_def
  by (rule filter_cong) (auto split: option.splits)

theorem getExpiredSlots_strict_witness:
  "getExpiredSlots boundary_store 1001 = [boundary_slot]"
  using getExpiredSlots_strict [of boundary_store 1001]
  by (simp add: boundary_store_def boundary_slot_def map_values_def)

text \<open>
  The claim reads the bound as inclusive. At the boundary \<open>expiresAt = now\<close> the
  specification's criterion selects the slot and the code does not return it.
\<close>

theorem getExpiredSlots_boundary_counterexample:
  "filter (spec_expired 1000) (map_values (slots boundary_store)) = [boundary_slot]
   \<and> getExpiredSlots boundary_store 1000 = []"
  by (simp add: spec_expired_def getExpiredSlots_def boundary_store_def boundary_slot_def
      map_values_def truthy_bool_def truthy_date_def)

subsection \<open>C5: a second trigger on a slot that is already inactive\<close>

text \<open>
  C5: in a well-formed store, a second run of the expiration checker at the same time,
  whatever Discord does, returns without changing the store or the trace (no call, no
  log line), and a run at any later time \<open>now2\<close> does not touch a slot that the first
  run expired. For the quota: when the monitor has revoked the only active slot of a
  holder, a further ping of that holder, at any time and whatever Discord does,
  returns without changing the store or the trace.
\<close>

theorem revoke_idempotent:
  assumes inv: "store_inv (storage b)"
  shows "startExpirationChecker orc2 env2 now (snd (startExpirationChecker orc env now b))
       = (Ret (), snd (startExpirationChecker orc env now b))
     \<and> (\<forall>s\<in>set (getExpiredSlots (storage (snd (startExpirationChecker orc env now b))) now2).
           slot_id s \<notin> slot_id ` set (getExpiredSlots (storage b) now))
     \<and> (getSlotByDiscordUserId (storage b) (msg_author msg) = Some s
        \<and> shopTypes (shopType s) = Some shopConfig
        \<and> pingsPerCooldown shopConfig
             \<le> length (getPingUsage (storage b) (slot_id s) (now - pingCooldown shopConfig))
        \<and> orc (trace b) (MessageDelete (msg_id msg)) \<noteq> Throws
        \<and> length (active_slots_of (storage b) (msg_author msg)) \<le> 1
        \<and> msg_author msg2 = msg_author msg
        \<longrightarrow> getSlot (storage (snd (handleEveryonePing orc msg now used ping_uuid b))) (slot_id s)
              = Some (deactivate s)
          \<and> handleEveryonePing orc2 msg2 now2 used2 ping_uuid2
               (snd (handleEveryonePing orc msg now used ping_uuid b))
              = (Ret (), snd (handleEveryonePing orc msg now used ping_uuid b)))"
proof -
  let ?b1 = "snd (startExpirationChecker orc env now b)"
  have run: "startExpirationChecker orc env now b = (fst (startExpirationChecker orc env now b), ?b1)"
    by simp
  have none: "getExpiredSlots (storage ?b1) now = []"
  proof (rule ccontr)
    assume "getExpiredSlots (storage ?b1) now \<noteq> []"
    then obtain x where "x \<in> set (getExpiredSlots (storage ?b1) now)"
      by (cases "getExpiredSlots (storage ?b1) now") auto
    then show False using expiration_run_none_left(2) [OF inv run, of x now] by simp
  qed
  have again: "startExpirationChecker orc2 env2 now ?b1 = (Ret (), ?b1)"
    by (simp add: startExpirationChecker_def [of orc2 env2 now] try_catch_def io_bind_def
        io_read_def none io_ret_def)
  have later: "\<forall>x\<in>set (getExpiredSlots (storage ?b1) now2).
      slot_id x \<notin> slot_id ` set (getExpiredSlots (storage b) now)"
    using expiration_run_none_left(1) [OF inv run] by blast
  have quota: "getSlot (storage (snd (handleEveryonePing orc msg now used ping_uuid b))) (slot_id s)
              = Some (deactivate s)
          \<and> handleEveryonePing orc2 msg2 now2 used2 ping_uuid2
               (snd (handleEveryonePing orc msg now used ping_uuid b))
              = (Ret (), snd (handleEveryonePing orc msg now used ping_uuid b))"
    if found: "getSlotByDiscordUserId (storage b) (msg_author msg) = Some s"
      and cfg: "shopTypes (shopType s) = Some shopConfig"
      and over: "pingsPerCooldown shopConfig
             \<le> length (getPingUsage (storage b) (slot_id s) (now - pingCooldown shopConfig))"
      and del: "orc (trace b) (MessageDelete (msg_id msg)) \<noteq> Throws"
      and one: "length (active_slots_of (storage b) (msg_author msg)) \<le> 1"
      and same: "msg_author msg2 = msg_author msg"
  proof -
    have look: "map_of (slots (storage b)) (slot_id s) = Some s"
      using store_inv_lookup [OF inv] found_is_active [OF found] by simp
    obtain b' evs where first: "handleEveryonePing orc msg now used ping_uuid b = (Ret (), b')"
      and st: "storage b' = (storage b)\<lparr>slots :=
          AList.update (slot_id s) (deactivate s) (slots (storage b))\<rparr>"
      using ping_over_limit [OF found cfg over look, of orc used ping_uuid] del by auto
    have "getSlotByDiscordUserId (storage b') (msg_author msg2) = None"
      unfolding st same by (rule deactivate_last_active [OF inv found one])
    then have "handleEveryonePing orc2 msg2 now2 used2 ping_uuid2 b' = (Ret (), b')"
      by (rule ping_ignored)
    moreover have "getSlot (storage b') (slot_id s) = Some (deactivate s)"
      by (simp add: st getSlot_def map_get_def update_conv')
    ultimately show ?thesis using first by simp
  qed
  show ?thesis using again later quota by blast
qed

text \<open>
  Two runs of the checker over two expired slots, and two pings over the limit of a
  level-3 slot.
\<close>

theorem revoke_idempotent_witness:
  "startExpirationChecker (always Object) no_env 5000
       (snd (startExpirationChecker (always Throws) no_env 5000 sweep_bot))
     = (Ret (), snd (startExpirationChecker (always Throws) no_env 5000 sweep_bot))
   \<and> length (getExpiredSlots (storage sweep_bot) 5000) = 2
   \<and> getSlot (storage (snd (handleEveryonePing (always Object) level3_msg 1000 1001 ''p2''
         level3_bot))) ''s3'' = Some revoked_slot
   \<and> handleEveryonePing (always Throws) level3_msg 1100 1101 ''p3''
       (snd (handleEveryonePing (always Object) level3_msg 1000 1001 ''p2'' level3_bot))
     = (Ret (), snd (handleEveryonePing (always Object) level3_msg 1000 1001 ''p2'' level3_bot))"
proof -
  have inv: "store_inv (storage sweep_bot)"
    by (simp add: store_inv_def sweep_bot_def sweep_slot_def)
  have ex: "length (getExpiredSlots (storage sweep_bot) 5000) = 2"
    by (simp add: getExpiredSlots_def sweep_bot_def sweep_slot_def map_values_def
        truthy_bool_def truthy_date_def)
  have sweep: "startExpirationChecker (always Object) no_env 5000
       (snd (startExpirationChecker (always Throws) no_env 5000 sweep_bot))
     = (Ret (), snd (startExpirationChecker (always Throws) no_env 5000 sweep_bot))"
    using revoke_idempotent [OF inv, where ?orc2.0 = "always Object" and ?env2.0 = no_env
        and now = 5000 and orc = "always Throws" and env = no_env]
    by blast
  have quota: "getSlot (storage (snd (handleEveryonePing (always Object) level3_msg 1000 1001 ''p2''
         level3_bot))) ''s3'' = Some revoked_slot
   \<and> handleEveryonePing (always Throws) level3_msg 1100 1101 ''p3''
       (snd (handleEveryonePing (always Object) level3_msg 1000 1001 ''p2'' level3_bot))
     = (Ret (), snd (handleEveryonePing (always Object) level3_msg 1000 1001 ''p2'' level3_bot))"
    using revoke_idempotent [OF level3_bot_facts(1), where ?orc2.0 = "always Throws"
        and now = 1000 and orc = "always Object" and msg = level3_msg
        and s = "revoked_slot\<lparr>isActive := Some True\<rparr>"
        and shopConfig = "\<lparr>shop_name = ''Level 3'', duration = Some (30 * 24 * 60 * 60 * 1000),
             pingCooldown = 24 * 60 * 60 * 1000, pingsPerCooldown = 1\<rparr>"
        and ?msg2.0 = level3_msg and used = 1001 and ping_uuid = "''p2''"
        and ?now2.0 = 1100 and ?used2.0 = 1101 and ?ping_uuid2.0 = "''p3''"]
      level3_bot_facts
    by (simp add: level3_msg_def always_def revoked_slot_def)
  show ?thesis using sweep ex quota by blast
qed

subsection \<open>C6: the deactivation commits whatever the revoke meets\<close>

text \<open>
  C6, as the code has it: for every behaviour of Discord, \<^verbatim>\<open>revokeSlotPermissions\<close>
  returns normally, leaves the store alone, and has written an error line whenever
  one of its calls was rejected. So in a well-formed store the deactivation that
  follows it commits: in the expiration checker for every slot that
  \<^verbatim>\<open>getExpiredSlots\<close> returns, in the remove command once the command is
  acknowledged (in a guild, for a holder with an active slot), and in the ping monitor
  on a ping over the limit once the message is deleted.
\<close>

theorem revoke_commits_despite_failures:
  assumes inv: "store_inv (storage b)"
  shows "fst (revokeSlotPermissions orc guildId slot b) = Ret ()
     \<and> storage (snd (revokeSlotPermissions orc guildId slot b)) = storage b
     \<and> (\<exists>evs. trace (snd (revokeSlotPermissions orc guildId slot b)) = trace b @ evs
           \<and> (has_throw evs \<longrightarrow> has_error_log evs))
     \<and> (orc (trace b) DeferReply \<noteq> Throws \<and> int_guild i = Some g
        \<and> getSlotByDiscordUserId (storage b) (du_id (opt_user i)) = Some s
        \<longrightarrow> getSlot (storage (snd (handleSlotRemove orc i b))) (slot_id s) = Some (deactivate s))
     \<and> (getSlotByDiscordUserId (storage b) (msg_author msg) = Some s'
        \<and> shopTypes (shopType s') = Some shopConfig
        \<and> pingsPerCooldown shopConfig
             \<le> length (getPingUsage (storage b) (slot_id s') (now - pingCooldown shopConfig))
        \<and> orc (trace b) (MessageDelete (msg_id msg)) \<noteq> Throws
        \<longrightarrow> getSlot (storage (snd (handleEveryonePing orc msg now used ping_uuid b))) (slot_id s')
              = Some (deactivate s'))
     \<and> (\<forall>x\<in>set (getExpiredSlots (storage b) now).
           getSlot (storage (snd (startExpirationChecker orc env now b))) (slot_id x)
             = Some (deactivate x))"
proof -
  obtain b1 evs where r: "revokeSlotPermissions orc guildId slot b = (Ret (), b1)"
    and s1: "storage b1 = storage b" and t1: "trace b1 = trace b @ evs"
    and l1: "has_throw evs \<longrightarrow> has_error_log evs"
    by (rule revoke_run_trace [of orc guildId slot b])
  have revoke: "fst (revokeSlotPermissions orc guildId slot b) = Ret ()
     \<and> storage (snd (revokeSlotPermissions orc guildId slot b)) = storage b
     \<and> (\<exists>evs. trace (snd (revokeSlotPermissions orc guildId slot b)) = trace b @ evs
           \<and> (has_throw evs \<longrightarrow> has_error_log evs))"
    using r s1 t1 l1 by auto
  have manual: "getSlot (storage (snd (handleSlotRemove orc i b))) (slot_id s) = Some (deactivate s)"
    if "orc (trace b) DeferReply \<noteq> Throws" and "int_guild i = Some g"
      and found: "getSlotByDiscordUserId (storage b) (du_id (opt_user i)) = Some s"
  proof -
    have look: "map_of (slots (storage b)) (slot_id s) = Some s"
      using store_inv_lookup [OF inv] found_is_active [OF found] by simp
    show ?thesis
      using slot_remove_run [of orc b i g s, OF that(1,2) found look]
      by (simp add: getSlot_def map_get_def update_conv')
  qed
  have quota: "getSlot (storage (snd (handleEveryonePing orc msg now used ping_uuid b))) (slot_id s')
              = Some (deactivate s')"
    if found: "getSlotByDiscordUserId (storage b) (msg_author msg) = Some s'"
      and cfg: "shopTypes (shopType s') = Some shopConfig"
      and over: "pingsPerCooldown shopConfig
             \<le> length (getPingUsage (storage b) (slot_id s') (now - pingCooldown shopConfig))"
      and del: "orc (trace b) (MessageDelete (msg_id msg)) \<noteq> Throws"
  proof -
    have look: "map_of (slots (storage b)) (slot_id s') = Some s'"
      using store_inv_lookup [OF inv] found_is_active [OF found] by simp
    obtain b' evs where "handleEveryonePing orc msg now used ping_uuid b = (Ret (), b')"
      and "storage b' = (storage b)\<lparr>slots :=
          AList.update (slot_id s') (deactivate s') (slots (storage b))\<rparr>"
      using ping_over_limit [OF found cfg over look, of orc used ping_uuid] del by auto
    then show ?thesis by (simp add: getSlot_def map_get_def update_conv')
  qed
  have expiry: "\<forall>x\<in>set (getExpiredSlots (storage b) now).
           getSlot (storage (snd (startExpirationChecker orc env now b))) (slot_id x)
             = Some (deactivate x)"
  proof
    fix x assume x: "x \<in> set (getExpiredSlots (storage b) now)"
    obtain b' where run: "startExpirationChecker orc env now b = (Ret (), b')"
      and m: "\<And>k. map_of (slots (storage b')) k
             = (if k \<in> slot_id ` set (getExpiredSlots (storage b) now)
                then map_option deactivate (map_of (slots (storage b)) k)
                else map_of (slots (storage b)) k)"
      using expiration_run [OF inv, of orc env now] by blast
    have "x \<in> set (map_values (slots (storage b)))" using x by (simp add: getExpiredSlots_def)
    then have "map_of (slots (storage b)) (slot_id x) = Some x" by (rule store_inv_lookup [OF inv])
    moreover have "slot_id x \<in> slot_id ` set (getExpiredSlots (storage b) now)"
      using x by (rule imageI)
    ultimately show "getSlot (storage (snd (startExpirationChecker orc env now b))) (slot_id x)
             = Some (deactivate x)"
      using m [of "slot_id x"] run by (simp add: getSlot_def map_get_def)
  qed
  show ?thesis using revoke manual quota expiry by blast
qed

text \<open>
  Discord rejects every call but the replies: the slot is deactivated by the remove
  command, and the failure of the first call of the revoke is in the trace, followed
  by the error line. Discord rejects every call: the checker deactivates the slot.
  Discord rejects every call but the deletion of the message: the ping monitor
  deactivates the slot.
\<close>

theorem revoke_commits_despite_failures_witness:
  "getSlot (storage (snd (handleSlotRemove replies_only remove_cmd level3_bot))) ''s3''
     = Some revoked_slot
   \<and> getSlot (storage level3_bot) ''s3'' = Some (revoked_slot\<lparr>isActive := Some True\<rparr>)
   \<and> trace (snd (revokeSlotPermissions replies_only ''g1'' revoked_slot level3_bot))
     = [Ext (GuildsFetch ''g1'') Throws, ConsoleError ''Error revoking slot permissions:'']
   \<and> getSlot (storage (snd (startExpirationChecker (always Throws) no_env 100000000 level3_bot)))
       ''s3'' = Some revoked_slot
   \<and> getSlot (storage (snd (handleEveryonePing delete_only level3_msg 1000 1001 ''p2''
         level3_bot))) ''s3'' = Some revoked_slot"
proof -
  have old: "getSlot (storage level3_bot) ''s3'' = Some (revoked_slot\<lparr>isActive := Some True\<rparr>)"
    by (simp add: getSlot_def map_get_def level3_bot_def)
  have tr: "trace (snd (revokeSlotPermissions replies_only ''g1'' revoked_slot level3_bot))
     = [Ext (GuildsFetch ''g1'') Throws, ConsoleError ''Error revoking slot permissions:'']"
    by (simp add: revokeSlotPermissions_def try_catch_def io_bind_def ext_def Let_def
        console_error_def replies_only_def level3_bot_def deref_def falsy_def)
  have ex: "getExpiredSlots (storage level3_bot) 100000000 = [revoked_slot\<lparr>isActive := Some True\<rparr>]"
    by (simp add: getExpiredSlots_def level3_bot_def revoked_slot_def map_values_def
        truthy_bool_def truthy_date_def)
  have id: "slot_id (revoked_slot\<lparr>isActive := Some True\<rparr>) = ''s3''"
    by (simp add: revoked_slot_def)
  have quota: "getSlot (storage (snd (handleEveryonePing delete_only level3_msg 1000 1001 ''p2''
         level3_bot))) ''s3'' = Some revoked_slot"
    using revoke_commits_despite_failures [OF level3_bot_facts(1), where orc = delete_only
        and msg = level3_msg and s' = "revoked_slot\<lparr>isActive := Some True\<rparr>"
        and shopConfig = "\<lparr>shop_name = ''Level 3'', duration = Some (30 * 24 * 60 * 60 * 1000),
             pingCooldown = 24 * 60 * 60 * 1000, pingsPerCooldown = 1\<rparr>"
        and now = 1000 and used = 1001 and ping_uuid = "''p2''"]
      level3_bot_facts
    by (simp add: level3_msg_def delete_only_def revoked_slot_def)
  have rest: "getSlot (storage (snd (handleSlotRemove replies_only remove_cmd level3_bot))) ''s3''
     = Some revoked_slot
   \<and> getSlot (storage (snd (startExpirationChecker (always Throws) no_env 100000000 level3_bot)))
       ''s3'' = Some revoked_slot"
    using revoke_commits_despite_failures [OF level3_bot_facts(1), where orc = replies_only
        and i = remove_cmd and g = "''g1''" and s = "revoked_slot\<lparr>isActive := Some True\<rparr>"
        and now = 100000000 and env = no_env]
      revoke_commits_despite_failures [OF level3_bot_facts(1), where orc = "always Throws"
        and now = 100000000 and env = no_env]
      level3_bot_facts
    unfolding ex
    by (simp add: replies_only_def remove_cmd_def id)
  show ?thesis using rest quota old tr by simp
qed

text \<open>
  The claim speaks of every trigger and of every call failing. When Discord rejects
  every call, a ping over the limit ends in the \<^verbatim>\<open>catch\<close> of the monitor after the
  rejected deletion, the remove command ends at the rejected acknowledgement, and the
  slot is still active after both.
\<close>

theorem revoke_blocked_counterexample:
  "getSlotByDiscordUserId (storage level3_bot) (msg_author level3_msg)
     = Some (revoked_slot\<lparr>isActive := Some True\<rparr>)
   \<and> length (getPingUsage (storage level3_bot) ''s3'' (1000 - 24 * 60 * 60 * 1000)) = 1
   \<and> handleEveryonePing (always Throws) level3_msg 1000 1001 ''p2'' level3_bot
     = (Ret (), level3_bot\<lparr>trace := [Ext (MessageDelete ''m9'') Throws,
                                       ConsoleError ''Error handling @everyone ping:'']\<rparr>)
   \<and> handleSlotRemove (always Throws) remove_cmd level3_bot
     = (Threw, level3_bot\<lparr>trace := [Ext DeferReply Throws]\<rparr>)
   \<and> getSlot (storage level3_bot) ''s3'' = Some (revoked_slot\<lparr>isActive := Some True\<rparr>)
   \<and> isActive (revoked_slot\<lparr>isActive := Some True\<rparr>) = Some True"
  by (simp add: handleEveryonePing_def handleSlotRemove_def try_catch_def io_bind_def
      io_read_def ext_def console_error_def Let_def always_def level3_bot_def level3_msg_def
      remove_cmd_def revoked_slot_def level3_ping_def getSlotByDiscordUserId_def getPingUsage_def
      getSlot_def map_get_def map_values_def truthy_bool_def truthy_date_def shopTypes_def)

subsection \<open>C7: one run of the expiration checker handles every expired slot\<close>

text \<open>
  C7: in a well-formed store, for every behaviour of Discord and so for every failure
  while a slot is processed, one run of the checker returns normally, deactivates
  every slot that \<^verbatim>\<open>getExpiredSlots\<close> returned, leaves the others as they were, and
  leaves no expired slot behind; it writes one line \<^verbatim>\<open>Expired slot\<close> for each of
  them and never the line of the \<^verbatim>\<open>catch\<close> around the loop.
\<close>

theorem expiration_sweep_continues:
  assumes inv: "store_inv (storage b)"
  shows "fst (startExpirationChecker orc env now b) = Ret ()
     \<and> (\<forall>s\<in>set (getExpiredSlots (storage b) now).
           getSlot (storage (snd (startExpirationChecker orc env now b))) (slot_id s)
             = Some (deactivate s))
     \<and> (\<forall>k. k \<notin> slot_id ` set (getExpiredSlots (storage b) now)
           \<longrightarrow> getSlot (storage (snd (startExpirationChecker orc env now b))) k
               = getSlot (storage b) k)
     \<and> getExpiredSlots (storage (snd (startExpirationChecker orc env now b))) now = []
     \<and> (\<exists>evs. trace (snd (startExpirationChecker orc env now b)) = trace b @ evs
           \<and> length (filter (\<lambda>e. e = ConsoleLog ''Expired slot'') evs)
               = length (getExpiredSlots (storage b) now)
           \<and> ConsoleError ''Error checking slot expiration:'' \<notin> set evs)"
proof -
  obtain b' where run: "startExpirationChecker orc env now b = (Ret (), b')"
    and m: "\<And>k. map_of (slots (storage b')) k
             = (if k \<in> slot_id ` set (getExpiredSlots (storage b) now)
                then map_option deactivate (map_of (slots (storage b)) k)
                else map_of (slots (storage b)) k)"
    using expiration_run [OF inv, of orc env now] by blast
  have "getSlot (storage b') (slot_id s) = Some (deactivate s)"
    if "s \<in> set (getExpiredSlots (storage b) now)" for s
  proof -
    have "s \<in> set (map_values (slots (storage b)))" using that by (simp add: getExpiredSlots_def)
    then have "map_of (slots (storage b)) (slot_id s) = Some s" by (rule store_inv_lookup [OF inv])
    moreover have "slot_id s \<in> slot_id ` set (getExpiredSlots (storage b) now)"
      using that by (rule imageI)
    ultimately show ?thesis using m [of "slot_id s"] by (simp add: getSlot_def map_get_def)
  qed
  moreover have "getSlot (storage b') k = getSlot (storage b) k"
    if "k \<notin> slot_id ` set (getExpiredSlots (storage b) now)" for k
    using m [of k] that by (simp add: getSlot_def map_get_def)
  moreover have "getExpiredSlots (storage b') now = []"
  proof (rule ccontr)
    assume "getExpiredSlots (storage b') now \<noteq> []"
    then obtain s where "s \<in> set (getExpiredSlots (storage b') now)"
      by (cases "getExpiredSlots (storage b') now") auto
    then show False using expiration_run_none_left(2) [OF inv run, of s now] by simp
  qed
  ultimately show ?thesis using run expiration_trace [of orc env now b] by simp
qed

text \<open>Every call to Discord is rejected, and both expired slots are deactivated.\<close>

theorem expiration_sweep_continues_witness:
  "getSlot (storage (snd (startExpirationChecker (always Throws) no_env 5000 sweep_bot))) ''s1''
     = Some (deactivate (sweep_slot ''s1'' ''d1'' (Some 100)))
   \<and> getSlot (storage (snd (startExpirationChecker (always Throws) no_env 5000 sweep_bot))) ''s2''
     = Some (deactivate (sweep_slot ''s2'' ''d2'' (Some 200)))
   \<and> getSlot (storage (snd (startExpirationChecker (always Throws) no_env 5000 sweep_bot))) ''s3''
     = Some (sweep_slot ''s3'' ''d3'' (Some 9000))
   \<and> getExpiredSlots (storage sweep_bot) 5000
     = [sweep_slot ''s1'' ''d1'' (Some 100), sweep_slot ''s2'' ''d2'' (Some 200)]"
proof -
  have inv: "store_inv (storage sweep_bot)"
    by (simp add: store_inv_def sweep_bot_def sweep_slot_def)
  have ex: "getExpiredSlots (storage sweep_bot) 5000
     = [sweep_slot ''s1'' ''d1'' (Some 100), sweep_slot ''s2'' ''d2'' (Some 200)]"
    by (simp add: getExpiredSlots_def sweep_bot_def sweep_slot_def map_values_def
        truthy_bool_def truthy_date_def)
  have old: "getSlot (storage sweep_bot) ''s3'' = Some (sweep_slot ''s3'' ''d3'' (Some 9000))"
    by (simp add: getSlot_def map_get_def sweep_bot_def)
  have ids: "slot_id (sweep_slot k h e) = k" for k h e by (simp add: sweep_slot_def)
  show ?thesis
    using expiration_sweep_continues [OF inv, of "always Throws" no_env 5000] old
    unfolding ex by (simp add: ids)
qed

subsection \<open>C8: the expiry of a new slot\<close>

text \<open>
  C8 asks that the \<open>expiresAt\<close> of every slot ever created is null exactly for the
  tiers level4 and partnered, and \<open>now\<close> plus the tier's duration for the others. The
  grant command stores that (lemma \<open>handleSlotAdd_expiry\<close>). The HTTP route does not:
  for a body of tier level1 with \<^verbatim>\<open>expiresAt\<close> \<^verbatim>\<open>null\<close> it answers 201 and stores a
  level-1 slot without expiry, where the tier table gives seven days; and it answers
  400 to the body of the dashboard, whose \<^verbatim>\<open>expiresAt\<close> is that date.
\<close>

theorem http_route_level1_without_expiry:
  "fst (post_api_slots http_body ''h1'' 500 empty_bot) = Ret (Status201 (http_slot ''h1'' 500))
   \<and> getSlot (storage (snd (post_api_slots http_body ''h1'' 500 empty_bot))) ''h1''
     = Some \<lparr>userId = ''d1'', discordUserId = ''d1'', username = ''Ann'', shopType = ''level1'',
        channelId = ''c1'', originalChannelName = ''general'', roleId = None,
        expiresAt = None, isActive = Some True, slot_id = ''h1'', createdAt = Some 500\<rparr>
   \<and> map_option (\<lambda>cfg. calcExpiresAt cfg 500) (shopTypes ''level1'') = Some (Some 604800500)
   \<and> post_api_slots dashboard_body ''h1'' 500 empty_bot
     = (Ret Status400, empty_bot\<lparr>trace := [ConsoleError ''Error creating slot:'']\<rparr>)"
proof -
  have stored: "post_api_slots http_body ''h1'' 500 empty_bot
      = (Ret (Status201 (http_slot ''h1'' 500)),
         empty_bot\<lparr>storage := (storage empty_bot)\<lparr>slots :=
            map_set ''h1'' (http_slot ''h1'' 500) (slots (storage empty_bot))\<rparr>\<rparr>)"
    by (rule post_http_body)
  have slot: "getSlot (storage (snd (post_api_slots http_body ''h1'' 500 empty_bot))) ''h1''
     = Some \<lparr>userId = ''d1'', discordUserId = ''d1'', username = ''Ann'', shopType = ''level1'',
        channelId = ''c1'', originalChannelName = ''general'', roleId = None,
        expiresAt = None, isActive = Some True, slot_id = ''h1'', createdAt = Some 500\<rparr>"
    unfolding stored
    by (simp add: getSlot_def map_get_def map_set_def empty_bot_def new_storage_def http_slot_def)
  have tier: "map_option (\<lambda>cfg. calcExpiresAt cfg 500) (shopTypes ''level1'')
      = Some (Some 604800500)"
    by (simp add: shopTypes_def calcExpiresAt_def)
  have rejected: "post_api_slots dashboard_body ''h1'' 500 empty_bot
     = (Ret Status400, empty_bot\<lparr>trace := [ConsoleError ''Error creating slot:'']\<rparr>)"
    by (simp add: post_api_slots_def dashboard_body_parse try_catch_def io_bind_def
        io_throw_def io_ret_def console_error_def empty_bot_def)
  show ?thesis using stored slot tier rejected by simp
qed

subsection \<open>C9: a ping of a holder without an active slot\<close>

text \<open>
  C9, as the code has it: when the holder has no active slot (none, or only inactive
  ones), the ping monitor returns normally and changes neither the store nor the
  trace, whatever the holder's ping usage: the message is not deleted, nothing is
  recorded, nothing is reported.
\<close>

theorem ping_without_active_slot_ignored:
  assumes "active_slots_of (storage b) (msg_author msg) = []"
  shows "handleEveryonePing orc msg now used ping_uuid b = (Ret (), b)"
  using assms by (simp add: no_active_slot_iff ping_ignored)

text \<open>A revoked level-3 slot, while Discord rejects every call.\<close>

theorem ping_without_active_slot_ignored_witness:
  "active_slots_of (storage revoked_bot) (msg_author level3_msg) = []
   \<and> handleEveryonePing (always Throws) level3_msg 1000 1001 ''p3'' revoked_bot
       = (Ret (), revoked_bot)"
proof -
  have a: "active_slots_of (storage revoked_bot) (msg_author level3_msg) = []"
    by (simp add: active_slots_of_def revoked_bot_def revoked_slot_def level3_msg_def
        map_values_def truthy_bool_def)
  show ?thesis
    using a ping_without_active_slot_ignored [OF a, of "always Throws" 1000 1001 "''p3''"]
    by simp
qed

text \<open>
  The claim asks for a denial with an error. The holder's slot is inactive, two pings
  are on record, and the run ends with the state it started from: no call to Discord
  and no line on the console.
\<close>

theorem inactive_holder_not_denied_counterexample:
  "getSlot (storage revoked_bot) ''s3'' = Some revoked_slot
   \<and> discordUserId revoked_slot = msg_author level3_msg
   \<and> isActive revoked_slot = Some False
   \<and> handleEveryonePing (always Object) level3_msg 1000 1001 ''p3'' revoked_bot
       = (Ret (), revoked_bot)
   \<and> trace revoked_bot = []"
  by (simp add: handleEveryonePing_def try_catch_def io_bind_def io_read_def io_ret_def
      getSlotByDiscordUserId_def getSlot_def map_get_def revoked_bot_def revoked_slot_def
      level3_msg_def map_values_def truthy_bool_def)

subsection \<open>C10: the dashboard statistics\<close>

text \<open>
  C10: for every store, \<open>totalSlots\<close> counts all slot records, \<open>activeSlots\<close> those
  with \<open>isActive\<close> true (so it is at most \<open>totalSlots\<close>), \<open>expiringSoon\<close> the active
  slots whose non-null \<open>expiresAt\<close> is at most 24 hours after \<open>now\<close>, which includes
  every slot that \<^verbatim>\<open>getExpiredSlots\<close> would return, and \<open>todayPings\<close> the ping usages of
  any slot with \<open>usedAt\<close> on or after the local midnight that starts the current day.
\<close>

theorem getSlotStats_counts:
  "totalSlots (getSlotStats tz now st) = length (slots st)
   \<and> activeSlots (getSlotStats tz now st)
       = length (filter (\<lambda>s. isActive s = Some True) (map_values (slots st)))
   \<and> activeSlots (getSlotStats tz now st) \<le> totalSlots (getSlotStats tz now st)
   \<and> expiringSoon (getSlotStats tz now st)
       = length (filter (\<lambda>s. isActive s = Some True
                    \<and> (\<exists>e. expiresAt s = Some e \<and> e \<le> now + day_ms)) (map_values (slots st)))
   \<and> length (getExpiredSlots st now) \<le> expiringSoon (getSlotStats tz now st)
   \<and> todayPings (getSlotStats tz now st)
       = length (filter (\<lambda>u. \<exists>t. usedAt u = Some t \<and> local_midnight tz now \<le> t)
           (map_values (pingUsage st)))
   \<and> local_midnight tz now \<le> now \<and> now < local_midnight tz now + day_ms
   \<and> (local_midnight tz now + tz) mod day_ms = 0"
proof -
  let ?r = "getSlotStats tz now st"
  have total: "totalSlots ?r = length (slots st)"
    by (simp add: getSlotStats_def Let_def)
  have active: "activeSlots ?r
      = length (filter (\<lambda>s. isActive s = Some True) (map_values (slots st)))"
    by (simp add: getSlotStats_def Let_def getAllActiveSlots_def truthy_bool_def)
  have le: "activeSlots ?r \<le> totalSlots ?r"
    unfolding total active by (simp add: map_values_def le_trans [OF length_filter_le])
  have "expiringSoon ?r
      = length (filter (\<lambda>s. truthy_date (expiresAt s)
                    \<and> (case expiresAt s of None \<Rightarrow> False
                        | Some e \<Rightarrow> e \<le> now + 86400000))
                 (filter (\<lambda>s. truthy_bool (isActive s)) (map_values (slots st))))"
    by (simp add: getSlotStats_def Let_def getAllActiveSlots_def)
  also have "\<dots> = length (filter (\<lambda>s. isActive s = Some True
                    \<and> (\<exists>e. expiresAt s = Some e \<and> e \<le> now + day_ms)) (map_values (slots st)))"
    unfolding filter_filter
    by (rule arg_cong [where f = length], rule filter_cong)
       (auto simp: truthy_bool_def truthy_date_def day_ms_def split: option.splits)
  finally have soon: "expiringSoon ?r
      = length (filter (\<lambda>s. isActive s = Some True
                    \<and> (\<exists>e. expiresAt s = Some e \<and> e \<le> now + day_ms)) (map_values (slots st)))" .
  have expired: "getExpiredSlots st now
      = filter (\<lambda>s. isActive s = Some True \<and> (\<exists>e. expiresAt s = Some e \<and> e < now))
          (map_values (slots st))"
    unfolding getExpiredSlots_def truthy_bool_def truthy_date_def
    by (rule filter_cong) (auto split: option.splits)
  have past: "length (getExpiredSlots st now) \<le> expiringSoon ?r"
    unfolding soon expired
    by (rule length_filter_conj_le) (auto simp: day_ms_def)
  have "todayPings ?r
      = length (filter (\<lambda>u. truthy_date (usedAt u)
                    \<and> (case usedAt u of None \<Rightarrow> False | Some t \<Rightarrow> local_midnight tz now \<le> t))
                 (map_values (pingUsage st)))"
    by (simp add: getSlotStats_def Let_def)
  also have "\<dots> = length (filter (\<lambda>u. \<exists>t. usedAt u = Some t \<and> local_midnight tz now \<le> t)
           (map_values (pingUsage st)))"
    by (rule arg_cong [where f = length], rule filter_cong)
       (auto simp: truthy_date_def split: option.splits)
  finally have pings: "todayPings ?r
      = length (filter (\<lambda>u. \<exists>t. usedAt u = Some t \<and> local_midnight tz now \<le> t)
           (map_values (pingUsage st)))" .
  show ?thesis using total active le soon past pings local_midnight_bounds [of tz now] by blast
qed

theorem getSlotStats_counts_witness:
  "getSlotStats 0 90000000 stats_store
     = \<lparr>totalSlots = 3, activeSlots = 2, expiringSoon = 1, todayPings = 1\<rparr>
   \<and> length (getExpiredSlots stats_store 90000000) = 1
   \<and> local_midnight 0 90000000 = 86400000"
  using getSlotStats_counts [of 0 90000000 stats_store]
  by (simp add: getSlotStats_def Let_def getAllActiveSlots_def getExpiredSlots_def
      stats_store_def boundary_slot_def map_values_def truthy_bool_def truthy_date_def
      local_midnight_def day_ms_def)

end
